theory Spec2Isabelle
  imports Complex_Main
begin

section \<open>SoleStride backend: order placement and stock adjustment\<close>

text \<open>
  The development embeds the order-creation handler of \<^verbatim>\<open>src/routes/user.js\<close>, the
  product handlers of \<^verbatim>\<open>src/routes/admin.js\<close> and the PL/pgSQL functions
  \<^verbatim>\<open>decrement_stock\<close> and \<^verbatim>\<open>restore_stock\<close> of migration 006. The relational store
  is a record of tables; a statement is a function from the store to an error or a result
  with the new store. Every \<^verbatim>\<open>await\<close> that can reject is a branch that returns \<open>Inl\<close>.
\<close>

subsection \<open>Column types\<close>

type_synonym uuid = string
type_synonym timestamp = nat

text \<open>
  The errors the store can raise: SQLSTATE 22003 (a value does not fit the column type),
  23503, 23505, and \<open>StoreFault\<close> for every failure that does not depend on the data below
  (lost connection, deadlock victim, lock timeout).
\<close>

datatype sql_error =
    NumericValueOutOfRange
  | ForeignKeyViolation
  | UniqueViolation
  | StoreFault

text \<open>\<^verbatim>\<open>INTEGER\<close>: PostgreSQL raises 22003 outside the 32-bit range; it never wraps.\<close>

definition int4 :: "int \<Rightarrow> sql_error + int" where
  "int4 n = (if - 2147483648 \<le> n \<and> n \<le> 2147483647 then Inr n else Inl NumericValueOutOfRange)"

text \<open>
  \<^verbatim>\<open>DECIMAL(10,2)\<close>: the value is rounded to two fractional digits, ties away from zero,
  and must then have at most eight integral digits. Amounts are rationals: the decimal
  number that the driver sends as the text of the parameter.
\<close>

definition round_half_away :: "rat \<Rightarrow> int" where
  "round_half_away x = (if 0 \<le> x then \<lfloor>x + 1 / 2\<rfloor> else - \<lfloor>- x + 1 / 2\<rfloor>)"

definition decimal_10_2 :: "rat \<Rightarrow> sql_error + rat" where
  "decimal_10_2 x =
     (let c = round_half_away (x * 100)
      in if \<bar>c\<bar> < 10 ^ 10 then Inr (of_int c / 100) else Inl NumericValueOutOfRange)"

subsection \<open>Tables\<close>

text \<open>\<^verbatim>\<open>public.products\<close>; the primary key \<^verbatim>\<open>id\<close> is the key of the map in \<open>db\<close>.\<close>

record product =
  name :: string
  description :: "string option"
  price :: rat
  original_price :: "rat option"
  category :: string
  image_url :: "string option"
  sizes :: "string list"
  colors :: "string list"
  in_stock :: bool
  featured :: bool
  stock_quantity :: int
  created_at :: timestamp
  updated_at :: timestamp

text \<open>\<^verbatim>\<open>public.orders\<close>\<close>

record order_row =
  o_id :: uuid
  o_user_id :: uuid
  o_status :: string
  o_total :: rat
  o_shipping_address :: "string option"
  o_created_at :: timestamp
  o_updated_at :: timestamp

text \<open>\<^verbatim>\<open>public.order_items\<close>; \<^verbatim>\<open>product_id\<close> is nullable (\<^verbatim>\<open>ON DELETE SET NULL\<close>).\<close>

record order_item_row =
  oi_id :: uuid
  oi_order_id :: uuid
  oi_product_id :: "uuid option"
  oi_product_name :: string
  oi_quantity :: int
  oi_size :: "string option"
  oi_price :: rat
  oi_created_at :: timestamp

text \<open>
  The store. Of \<^verbatim>\<open>public.users\<close> only the set of ids matters here (the foreign key of
  \<^verbatim>\<open>orders.user_id\<close>); the wishlist, review and contact tables are not touched by any
  operation below except through cascades of their own.
\<close>

record db =
  users :: "uuid set"
  products :: "uuid \<rightharpoonup> product"
  orders :: "order_row list"
  order_items :: "order_item_row list"

subsection \<open>The stock statements and functions of migration 006\<close>

text \<open>
  \<^verbatim>\<open>UPDATE products SET stock_quantity = stock_quantity - q,
       in_stock = (stock_quantity - q) > 0, updated_at = now() WHERE id = p\<close>
  This text occurs in \<^verbatim>\<open>decrement_stock\<close> and in the order handler. Both right-hand
  sides read the row as it was before the statement.
\<close>

definition update_stock_minus :: "timestamp \<Rightarrow> int \<Rightarrow> uuid \<Rightarrow> db \<Rightarrow> sql_error + unit \<times> db" where
  "update_stock_minus t q p d =
     (case products d p of
        None \<Rightarrow> Inr ((), d)
      | Some r \<Rightarrow>
          (case int4 (stock_quantity r - q) of
             Inl err \<Rightarrow> Inl err
           | Inr n \<Rightarrow>
               Inr ((), d\<lparr>products := (products d)(p \<mapsto>
                      r\<lparr>stock_quantity := n, in_stock := (0 < n), updated_at := t\<rparr>)\<rparr>)))"

text \<open>
  \<^verbatim>\<open>decrement_stock(p_product_id, p_quantity)\<close>: \<^verbatim>\<open>SELECT stock_quantity INTO
  v_current_stock ... FOR UPDATE\<close> leaves the variable NULL when no row matches (the
  column is \<^verbatim>\<open>NOT NULL\<close>). The arguments are non-NULL values.
\<close>

definition decrement_stock :: "timestamp \<Rightarrow> uuid \<Rightarrow> int \<Rightarrow> db \<Rightarrow> sql_error + bool \<times> db" where
  "decrement_stock t p_product_id p_quantity d =
     (let v_current_stock = map_option stock_quantity (products d p_product_id)
      in case v_current_stock of
           None \<Rightarrow> Inr (False, d)
         | Some s \<Rightarrow>
             if s < p_quantity then Inr (False, d)
             else (case update_stock_minus t p_quantity p_product_id d of
                     Inl err \<Rightarrow> Inl err
                   | Inr (_, d') \<Rightarrow> Inr (True, d')))"

text \<open>
  \<^verbatim>\<open>restore_stock(p_product_id, p_quantity)\<close>:
  \<^verbatim>\<open>UPDATE products SET stock_quantity = stock_quantity + p_quantity, in_stock = true,
       updated_at = now() WHERE id = p_product_id\<close>
\<close>

definition restore_stock :: "timestamp \<Rightarrow> uuid \<Rightarrow> int \<Rightarrow> db \<Rightarrow> sql_error + db" where
  "restore_stock t p_product_id p_quantity d =
     (case products d p_product_id of
        None \<Rightarrow> Inr d
      | Some r \<Rightarrow>
          (case int4 (stock_quantity r + p_quantity) of
             Inl err \<Rightarrow> Inl err
           | Inr n \<Rightarrow>
               Inr (d\<lparr>products := (products d)(p_product_id \<mapsto>
                      r\<lparr>stock_quantity := n, in_stock := True, updated_at := t\<rparr>)\<rparr>)))"

subsection \<open>The pooled connection\<close>

text \<open>
  What a run of a handler cannot decide itself is a parameter: whether the pool hands out a
  client, which statements fail for reasons outside the data, the value of \<^verbatim>\<open>now()\<close>,
  and the values of \<^verbatim>\<open>gen_random_uuid()\<close>.
\<close>

record env =
  connect_fails :: bool
  stmt_fails :: "nat \<Rightarrow> bool"
  now :: timestamp
  order_uuid :: uuid
  item_uuid :: "nat \<Rightarrow> uuid"
  product_uuid :: uuid

text \<open>
  The store and the pooled client through which the handler reaches it. \<open>committed\<close> is
  the persisted store; \<open>pending\<close> is the working copy of the transaction that is open on
  the client, if one is; \<open>sent\<close> counts the statements sent so far (the index into
  \<open>stmt_fails\<close>); \<open>acquired\<close> and \<open>released\<close> count how often the client was taken from
  and given back to the pool. A client that is given back keeps what is open on it: the
  handler calls \<^verbatim>\<open>client.release()\<close> without an argument, which returns the connection
  to the pool as it is.
\<close>

record world =
  committed :: db
  pending :: "db option"
  sent :: nat
  acquired :: nat
  released :: nat

text \<open>A store with a client on which nothing has been sent yet.\<close>

definition fresh_world :: "db \<Rightarrow> world" where
  "fresh_world d = \<lparr>committed = d, pending = None, sent = 0, acquired = 0, released = 0\<rparr>"

text \<open>
  Modelled from the spec: \<^verbatim>\<open>getClient\<close> of \<^verbatim>\<open>src/config/database.js\<close> is not among
  the sources. The spec says that a connection to the store is acquired at the start of the
  operation and released at its end, and no more: the client comes as its last holder
  left it.
\<close>

definition getClient :: "env \<Rightarrow> world \<Rightarrow> (sql_error + unit) \<times> world" where
  "getClient e w =
     (if connect_fails e then (Inl StoreFault, w)
      else (Inr (), w\<lparr>acquired := Suc (acquired w)\<rparr>))"

definition client_release :: "world \<Rightarrow> world" where
  "client_release w = w\<lparr>released := Suc (released w)\<rparr>"

text \<open>
  \<^verbatim>\<open>client.query(text, params)\<close> for a data statement. A statement that fails has no
  effect. Inside a transaction it works on the working copy, outside it commits by itself.
\<close>

definition client_query ::
  "env \<Rightarrow> (db \<Rightarrow> sql_error + 'a \<times> db) \<Rightarrow> world \<Rightarrow> (sql_error + 'a) \<times> world" where
  "client_query e stmt w =
     (let w1 = w\<lparr>sent := Suc (sent w)\<rparr>
      in if stmt_fails e (sent w) then (Inl StoreFault, w1)
         else (case pending w of
                 Some d \<Rightarrow>
                   (case stmt d of
                      Inl err \<Rightarrow> (Inl err, w1)
                    | Inr (x, d') \<Rightarrow> (Inr x, w1\<lparr>pending := Some d'\<rparr>))
               | None \<Rightarrow>
                   (case stmt (committed w) of
                      Inl err \<Rightarrow> (Inl err, w1)
                    | Inr (x, d') \<Rightarrow> (Inr x, w1\<lparr>committed := d'\<rparr>))))"

text \<open>
  \<^verbatim>\<open>client.query('BEGIN')\<close>, \<^verbatim>\<open>client.query('COMMIT')\<close> and
  \<^verbatim>\<open>client.query('ROLLBACK')\<close>. \<^verbatim>\<open>BEGIN\<close> starts the working copy from the
  persisted store, \<^verbatim>\<open>COMMIT\<close> makes the working copy the persisted store,
  \<^verbatim>\<open>ROLLBACK\<close> drops it. A \<^verbatim>\<open>COMMIT\<close> that fails has committed nothing; a
  \<^verbatim>\<open>ROLLBACK\<close> that fails leaves the transaction open, and a \<^verbatim>\<open>BEGIN\<close> on a
  client whose transaction is open goes on in that transaction.
\<close>

definition client_begin :: "env \<Rightarrow> world \<Rightarrow> (sql_error + unit) \<times> world" where
  "client_begin e w =
     (let w1 = w\<lparr>sent := Suc (sent w)\<rparr>
      in if stmt_fails e (sent w) then (Inl StoreFault, w1)
         else (Inr (), w1\<lparr>pending := Some (case pending w of None \<Rightarrow> committed w | Some d \<Rightarrow> d)\<rparr>))"

definition client_commit :: "env \<Rightarrow> world \<Rightarrow> (sql_error + unit) \<times> world" where
  "client_commit e w =
     (let w1 = w\<lparr>sent := Suc (sent w)\<rparr>
      in if stmt_fails e (sent w) then (Inl StoreFault, w1)
         else (Inr (), w1\<lparr>committed := (case pending w of None \<Rightarrow> committed w | Some d \<Rightarrow> d),
                            pending := None\<rparr>))"

definition client_rollback :: "env \<Rightarrow> world \<Rightarrow> (sql_error + unit) \<times> world" where
  "client_rollback e w =
     (let w1 = w\<lparr>sent := Suc (sent w)\<rparr>
      in if stmt_fails e (sent w) then (Inl StoreFault, w1)
         else (Inr (), w1\<lparr>pending := None\<rparr>))"

subsection \<open>POST /orders\<close>

text \<open>
  The request body and \<^verbatim>\<open>req.userId\<close>, which the authentication middleware sets.
  The numbers of the body are JavaScript numbers. Such a number stands here as the decimal
  number that its text \<^verbatim>\<open>String(x)\<close> denotes: this text is what the validators read and
  what the driver sends as the parameter, different numbers have different texts, and the
  order of the numbers is the order of these decimals. The types hold more values than
  there are JavaScript numbers; \<open>quantity\<close> is a number whose text is that of an integer.
\<close>

record order_item_input =
  productId :: uuid
  quantity :: int
  item_price :: rat
  item_size :: "string option"
  product_name :: "string option"

record order_request =
  userId :: uuid
  items :: "order_item_input list"
  order_total :: rat
  shippingAddress :: string

datatype payload =
    OrderPlaced order_row
  | ProductBody uuid product
  | Message string
  | ErrorBody string

type_synonym response = "nat \<times> payload"

text \<open>
  How a handler ends: it sent a response, it called \<^verbatim>\<open>next(error)\<close>, or its promise
  rejected (an error thrown inside the \<^verbatim>\<open>catch\<close> block).
\<close>

datatype outcome = Responded response | Forwarded sql_error | Unhandled sql_error

text \<open>
  The validation chains of the route, in their order; \<^verbatim>\<open>validate\<close> answers 400 with the
  message of the first failure. The identifiers, strings and the address are typed here, so
  the chains that remain are the numeric ones and the non-empty array. \<^verbatim>\<open>isInt\<close> reads
  the text of the number, which from \<open>10 ^ 21\<close> on is written with an exponent and is
  refused; \<^verbatim>\<open>isFloat\<close> accepts an exponent.
\<close>

definition validation_error :: "order_request \<Rightarrow> string option" where
  "validation_error req =
     (if items req = [] then Some ''At least one order item is required''
      else if list_ex (\<lambda>i. quantity i < 1 \<or> 10 ^ 21 \<le> quantity i) (items req)
      then Some ''Quantity must be at least 1''
      else if list_ex (\<lambda>i. item_price i < 0) (items req) then Some ''Price must be a valid number''
      else if order_total req < 0 then Some ''Total must be a valid number''
      else None)"

text \<open>\<^verbatim>\<open>SELECT id, name, stock_quantity FROM products WHERE id = $1 FOR UPDATE\<close>\<close>

definition select_for_update :: "uuid \<Rightarrow> db \<Rightarrow> sql_error + product option \<times> db" where
  "select_for_update p d = Inr (products d p, d)"

text \<open>
  \<^verbatim>\<open>INSERT INTO orders (user_id, total, status, shipping_address)
       VALUES ($1, $2, 'pending', $3::jsonb) RETURNING ...\<close>
\<close>

definition insert_order ::
  "uuid \<Rightarrow> timestamp \<Rightarrow> uuid \<Rightarrow> rat \<Rightarrow> string \<Rightarrow> db \<Rightarrow> sql_error + order_row \<times> db" where
  "insert_order new_id t uid amount address d =
     (case decimal_10_2 amount of
        Inl err \<Rightarrow> Inl err
      | Inr amount' \<Rightarrow>
          if new_id \<in> set (map o_id (orders d)) then Inl UniqueViolation
          else if uid \<notin> users d then Inl ForeignKeyViolation
          else
            (let row = \<lparr>o_id = new_id, o_user_id = uid, o_status = ''pending'',
                        o_total = amount', o_shipping_address = Some address,
                        o_created_at = t, o_updated_at = t\<rparr>
             in Inr (row, d\<lparr>orders := orders d @ [row]\<rparr>)))"

text \<open>\<^verbatim>\<open>x || null\<close> on an optional string: the empty string is falsy.\<close>

definition or_null :: "string option \<Rightarrow> string option" where
  "or_null x = (case x of None \<Rightarrow> None | Some s \<Rightarrow> if s = [] then None else Some s)"

text \<open>
  The parameters of the insert into \<^verbatim>\<open>order_items\<close>, as the handler builds them:
  \<^verbatim>\<open>[order.id, item.productId, item.product_name || 'Product', item.quantity,
        item.size || null, item.price]\<close>; \<open>new_id\<close> and \<open>t\<close> are the column defaults
  \<^verbatim>\<open>gen_random_uuid()\<close> and \<^verbatim>\<open>now()\<close>.
\<close>

definition order_item_params ::
  "uuid \<Rightarrow> timestamp \<Rightarrow> uuid \<Rightarrow> order_item_input \<Rightarrow> order_item_row" where
  "order_item_params new_id t oid item =
     \<lparr>oi_id = new_id, oi_order_id = oid,
      oi_product_id = Some (productId item),
      oi_product_name =
        (case product_name item of
           None \<Rightarrow> ''Product''
         | Some n \<Rightarrow> if n = [] then ''Product'' else n),
      oi_quantity = quantity item,
      oi_size = or_null (item_size item),
      oi_price = item_price item,
      oi_created_at = t\<rparr>"

text \<open>
  \<^verbatim>\<open>INSERT INTO order_items (order_id, product_id, product_name, quantity, size, price)
       VALUES ($1, $2, $3, $4, $5, $6)\<close>: the statement coerces quantity and price to
  their column types and checks the primary and the two foreign keys.
\<close>

definition insert_order_item :: "order_item_row \<Rightarrow> db \<Rightarrow> sql_error + unit \<times> db" where
  "insert_order_item v d =
     (case int4 (oi_quantity v) of
        Inl err \<Rightarrow> Inl err
      | Inr q \<Rightarrow>
          (case decimal_10_2 (oi_price v) of
             Inl err \<Rightarrow> Inl err
           | Inr p \<Rightarrow>
               if oi_id v \<in> set (map oi_id (order_items d)) then Inl UniqueViolation
               else if oi_order_id v \<notin> set (map o_id (orders d)) then Inl ForeignKeyViolation
               else if (case oi_product_id v of None \<Rightarrow> False | Some pid \<Rightarrow> products d pid = None)
               then Inl ForeignKeyViolation
               else Inr ((), d\<lparr>order_items := order_items d @ [v\<lparr>oi_quantity := q, oi_price := p\<rparr>]\<rparr>)))"

text \<open>
  The first loop of the handler. The result is \<open>Inl\<close> when an \<^verbatim>\<open>await\<close> rejected,
  \<open>Inr (Some r)\<close> when the handler returned from inside the loop after sending \<open>r\<close>,
  and \<open>Inr None\<close> when the loop ran to its end.
\<close>

fun reserve_stock ::
  "env \<Rightarrow> order_item_input list \<Rightarrow> world \<Rightarrow> (sql_error + response option) \<times> world" where
  "reserve_stock e [] w = (Inr None, w)"
| "reserve_stock e (item # rest) w =
     (case client_query e (select_for_update (productId item)) w of
        (Inl err, w1) \<Rightarrow> (Inl err, w1)
      | (Inr None, w1) \<Rightarrow>
          (case client_rollback e w1 of
             (Inl err, w2) \<Rightarrow> (Inl err, w2)
           | (Inr _, w2) \<Rightarrow>
               (Inr (Some (400, ErrorBody ''One or more products no longer exist'')), w2))
      | (Inr (Some product), w1) \<Rightarrow>
          if stock_quantity product < quantity item then
            (case client_rollback e w1 of
               (Inl err, w2) \<Rightarrow> (Inl err, w2)
             | (Inr _, w2) \<Rightarrow>
                 (Inr (Some (400, ErrorBody (''Insufficient stock for \"'' @ name product @ ''\"''))),
                  w2))
          else
            (case client_query e (update_stock_minus (now e) (quantity item) (productId item)) w1 of
               (Inl err, w2) \<Rightarrow> (Inl err, w2)
             | (Inr _, w2) \<Rightarrow> reserve_stock e rest w2))"

text \<open>The second loop; \<open>k\<close> is the position of the item, which selects its generated id.\<close>

fun insert_items ::
  "env \<Rightarrow> uuid \<Rightarrow> nat \<Rightarrow> order_item_input list \<Rightarrow> world \<Rightarrow> (sql_error + unit) \<times> world" where
  "insert_items e oid k [] w = (Inr (), w)"
| "insert_items e oid k (item # rest) w =
     (case client_query e (insert_order_item (order_item_params (item_uuid e k) (now e) oid item)) w of
        (Inl err, w1) \<Rightarrow> (Inl err, w1)
      | (Inr _, w1) \<Rightarrow> insert_items e oid (Suc k) rest w1)"

text \<open>The \<^verbatim>\<open>try\<close> block from \<^verbatim>\<open>BEGIN\<close> on, with the client in hand.\<close>

definition transaction :: "env \<Rightarrow> order_request \<Rightarrow> world \<Rightarrow> (sql_error + response) \<times> world" where
  "transaction e req w =
     (case client_begin e w of
        (Inl err, w1) \<Rightarrow> (Inl err, w1)
      | (Inr _, w1) \<Rightarrow>
          (case reserve_stock e (items req) w1 of
             (Inl err, w2) \<Rightarrow> (Inl err, w2)
           | (Inr (Some r), w2) \<Rightarrow> (Inr r, w2)
           | (Inr None, w2) \<Rightarrow>
               (case client_query e
                       (insert_order (order_uuid e) (now e) (userId req) (order_total req)
                          (shippingAddress req)) w2 of
                  (Inl err, w3) \<Rightarrow> (Inl err, w3)
                | (Inr order, w3) \<Rightarrow>
                    (case insert_items e (o_id order) 0 (items req) w3 of
                       (Inl err, w4) \<Rightarrow> (Inl err, w4)
                     | (Inr _, w4) \<Rightarrow>
                         (case client_commit e w4 of
                            (Inl err, w5) \<Rightarrow> (Inl err, w5)
                          | (Inr _, w5) \<Rightarrow> (Inr (201, OrderPlaced order), w5))))))"

text \<open>
  The whole \<^verbatim>\<open>try\<close> block. The first component tells whether the variable
  \<^verbatim>\<open>client\<close> was assigned.
\<close>

definition try_block ::
  "env \<Rightarrow> order_request \<Rightarrow> world \<Rightarrow> bool \<times> (sql_error + response) \<times> world" where
  "try_block e req w =
     (case validation_error req of
        Some msg \<Rightarrow> (False, Inr (400, ErrorBody msg), w)
      | None \<Rightarrow>
          (case getClient e w of
             (Inl err, w1) \<Rightarrow> (False, Inl err, w1)
           | (Inr _, w1) \<Rightarrow> (True, transaction e req w1)))"

text \<open>\<^verbatim>\<open>catch (error) { if (client) await client.query('ROLLBACK'); next(error); }\<close>\<close>

definition catch_block :: "env \<Rightarrow> bool \<Rightarrow> sql_error \<Rightarrow> world \<Rightarrow> outcome \<times> world" where
  "catch_block e client err w =
     (if client then
        (case client_rollback e w of
           (Inl err', w1) \<Rightarrow> (Unhandled err', w1)
         | (Inr _, w1) \<Rightarrow> (Forwarded err, w1))
      else (Forwarded err, w))"

text \<open>\<^verbatim>\<open>finally { if (client) client.release(); }\<close>\<close>

definition finally_block :: "bool \<Rightarrow> world \<Rightarrow> world" where
  "finally_block client w = (if client then client_release w else w)"

text \<open>The handler, run on the store and the client as they are.\<close>

definition post_orders_on :: "env \<Rightarrow> order_request \<Rightarrow> world \<Rightarrow> outcome \<times> world" where
  "post_orders_on e req w0 =
     (case try_block e req w0 of
        (client, Inr r, w) \<Rightarrow> (Responded r, finally_block client w)
      | (client, Inl err, w) \<Rightarrow>
          (case catch_block e client err w of
             (out, w1) \<Rightarrow> (out, finally_block client w1)))"

text \<open>The handler as the first to use the client.\<close>

definition post_orders :: "env \<Rightarrow> order_request \<Rightarrow> db \<Rightarrow> outcome \<times> world" where
  "post_orders e req d = post_orders_on e req (fresh_world d)"

subsection \<open>The product handlers of the admin router\<close>

text \<open>
  Modelled from the spec: \<^verbatim>\<open>query\<close> of \<^verbatim>\<open>src/config/database.js\<close> is not among the
  sources. The spec leaves transactions to the store, so a statement sent outside a
  transaction takes effect by itself or fails without effect; \<open>k\<close> is the position of the
  statement in its handler.
\<close>

definition query ::
  "env \<Rightarrow> nat \<Rightarrow> (db \<Rightarrow> sql_error + 'a \<times> db) \<Rightarrow> db \<Rightarrow> (sql_error + 'a) \<times> db" where
  "query e k stmt d =
     (if stmt_fails e k then (Inl StoreFault, d)
      else (case stmt d of
              Inl err \<Rightarrow> (Inl err, d)
            | Inr (x, d') \<Rightarrow> (Inr x, d')))"

text \<open>
  The JSON body of a product request. \<open>None\<close> is an absent field and, for the fields
  whose chain is \<^verbatim>\<open>optional({ nullable: true })\<close> (description, original price, image,
  sizes, colors), also an explicit null, which \<^verbatim>\<open>??\<close> and \<^verbatim>\<open>||\<close> treat like an absent
  field. A body with an explicit null in one of the other fields is refused by validation
  with 400 before any statement is sent; such bodies are not among the values of this type.
  The numbers stand for JavaScript numbers as in \<open>order_request\<close>.
\<close>

record product_body =
  b_name :: "string option"
  b_description :: "string option"
  b_category :: "string option"
  b_price :: "rat option"
  b_original_price :: "rat option"
  b_image_url :: "string option"
  b_sizes :: "string list option"
  b_colors :: "string list option"
  b_featured :: "bool option"
  b_stock_quantity :: "int option"

definition negative_opt :: "rat option \<Rightarrow> bool" where
  "negative_opt x = (case x of None \<Rightarrow> False | Some v \<Rightarrow> v < 0)"

definition decimal_opt :: "rat option \<Rightarrow> sql_error + rat option" where
  "decimal_opt x =
     (case x of
        None \<Rightarrow> Inr None
      | Some v \<Rightarrow> (case decimal_10_2 v of Inl err \<Rightarrow> Inl err | Inr v' \<Rightarrow> Inr (Some v')))"

text \<open>
  The chains of \<^verbatim>\<open>POST /products\<close>, in their order. In
  \<^verbatim>\<open>isString().notEmpty().withMessage(...)\<close> the message belongs to \<^verbatim>\<open>notEmpty\<close>; an
  absent field fails \<^verbatim>\<open>isString\<close> first, whose message is the default one.
\<close>

definition create_validation_error :: "product_body \<Rightarrow> string option" where
  "create_validation_error b =
     (if b_name b = None then Some ''Invalid value''
      else if b_name b = Some [] then Some ''Name is required''
      else if b_category b = None then Some ''Invalid value''
      else if b_category b = Some [] then Some ''Category is required''
      else if b_price b = None \<or> negative_opt (b_price b) then Some ''Price must be a valid number''
      else if negative_opt (b_original_price b) then Some ''Invalid value''
      else if (case b_stock_quantity b of None \<Rightarrow> False | Some n \<Rightarrow> n < 0 \<or> 10 ^ 21 \<le> n)
      then Some ''Invalid value''
      else None)"

text \<open>
  \<^verbatim>\<open>INSERT INTO products (name, ..., stock_quantity, in_stock) VALUES (...) RETURNING ...\<close>;
  \<open>r\<close> holds the parameters, the statement coerces them to the column types.
\<close>

definition insert_product :: "uuid \<Rightarrow> product \<Rightarrow> db \<Rightarrow> sql_error + product \<times> db" where
  "insert_product new_id r d =
     (case decimal_10_2 (price r) of
        Inl err \<Rightarrow> Inl err
      | Inr pr \<Rightarrow>
          (case decimal_opt (original_price r) of
             Inl err \<Rightarrow> Inl err
           | Inr opr \<Rightarrow>
               (case int4 (stock_quantity r) of
                  Inl err \<Rightarrow> Inl err
                | Inr n \<Rightarrow>
                    if products d new_id \<noteq> None then Inl UniqueViolation
                    else
                      (let row = r\<lparr>price := pr, original_price := opr, stock_quantity := n\<rparr>
                       in Inr (row, d\<lparr>products := (products d)(new_id \<mapsto> row)\<rparr>)))))"

text \<open>
  \<^verbatim>\<open>POST /products\<close>: \<^verbatim>\<open>const stockQuantity = Number(req.body.stock_quantity ?? 0)\<close>,
  and the parameters \<^verbatim>\<open>[name, description || null, category, price, original_price || null,
  image_url || null, sizes || [], colors || [], Boolean(featured), stockQuantity,
  stockQuantity > 0]\<close>. The defaults for \<open>name\<close>, \<open>category\<close> and \<open>price\<close> are never
  taken: validation has rejected a body without them.
\<close>

definition admin_create_product :: "env \<Rightarrow> product_body \<Rightarrow> db \<Rightarrow> outcome \<times> db" where
  "admin_create_product e b d =
     (case create_validation_error b of
        Some msg \<Rightarrow> (Responded (400, ErrorBody msg), d)
      | None \<Rightarrow>
          (let stockQuantity = (case b_stock_quantity b of None \<Rightarrow> 0 | Some n \<Rightarrow> n)
           in case query e 0
                  (insert_product (product_uuid e)
                     \<lparr>name = (case b_name b of None \<Rightarrow> [] | Some n \<Rightarrow> n),
                      description = or_null (b_description b),
                      price = (case b_price b of None \<Rightarrow> 0 | Some x \<Rightarrow> x),
                      original_price =
                        (case b_original_price b of
                           None \<Rightarrow> None
                         | Some x \<Rightarrow> if x = 0 then None else Some x),
                      category = (case b_category b of None \<Rightarrow> [] | Some c \<Rightarrow> c),
                      image_url = or_null (b_image_url b),
                      sizes = (case b_sizes b of None \<Rightarrow> [] | Some xs \<Rightarrow> xs),
                      colors = (case b_colors b of None \<Rightarrow> [] | Some xs \<Rightarrow> xs),
                      in_stock = (0 < stockQuantity),
                      featured = (case b_featured b of None \<Rightarrow> False | Some f \<Rightarrow> f),
                      stock_quantity = stockQuantity,
                      created_at = now e,
                      updated_at = now e\<rparr>) d of
                (Inl err, d') \<Rightarrow> (Forwarded err, d')
              | (Inr row, d') \<Rightarrow> (Responded (201, ProductBody (product_uuid e) row), d')))"

text \<open>The chains of \<^verbatim>\<open>PATCH /products/:productId\<close>; none has a message of its own.\<close>

definition update_validation_error :: "product_body \<Rightarrow> string option" where
  "update_validation_error b =
     (if b_name b = Some [] \<or> b_category b = Some [] \<or> negative_opt (b_price b)
         \<or> negative_opt (b_original_price b)
         \<or> (case b_stock_quantity b of None \<Rightarrow> False | Some n \<Rightarrow> n < 0 \<or> 10 ^ 21 \<le> n)
      then Some ''Invalid value'' else None)"

text \<open>\<^verbatim>\<open>SELECT * FROM products WHERE id = $1 LIMIT 1\<close>\<close>

definition select_product :: "uuid \<Rightarrow> db \<Rightarrow> sql_error + product option \<times> db" where
  "select_product p d = Inr (products d p, d)"

text \<open>
  \<^verbatim>\<open>UPDATE products SET name = $1, ..., stock_quantity = $10, in_stock = $11,
       updated_at = NOW() WHERE id = $12 RETURNING ...\<close>; \<open>v\<close> holds the parameters.
\<close>

definition update_product ::
  "uuid \<Rightarrow> timestamp \<Rightarrow> product \<Rightarrow> db \<Rightarrow> sql_error + product option \<times> db" where
  "update_product p t v d =
     (case products d p of
        None \<Rightarrow> Inr (None, d)
      | Some r \<Rightarrow>
          (case decimal_10_2 (price v) of
             Inl err \<Rightarrow> Inl err
           | Inr pr \<Rightarrow>
               (case decimal_opt (original_price v) of
                  Inl err \<Rightarrow> Inl err
                | Inr opr \<Rightarrow>
                    (case int4 (stock_quantity v) of
                       Inl err \<Rightarrow> Inl err
                     | Inr n \<Rightarrow>
                         (let row = v\<lparr>price := pr, original_price := opr, stock_quantity := n,
                                      created_at := created_at r, updated_at := t\<rparr>
                          in Inr (Some row, d\<lparr>products := (products d)(p \<mapsto> row)\<rparr>))))))"

text \<open>
  \<^verbatim>\<open>PATCH /products/:productId\<close>: every parameter is \<^verbatim>\<open>req.body.x ?? current.x\<close>, with
  \<^verbatim>\<open>const stockQuantity = req.body.stock_quantity ?? current.stock_quantity\<close> and
  \<^verbatim>\<open>const inStock = Number(stockQuantity) > 0\<close>.
\<close>

definition admin_update_product :: "env \<Rightarrow> uuid \<Rightarrow> product_body \<Rightarrow> db \<Rightarrow> outcome \<times> db" where
  "admin_update_product e p b d =
     (case update_validation_error b of
        Some msg \<Rightarrow> (Responded (400, ErrorBody msg), d)
      | None \<Rightarrow>
          (case query e 0 (select_product p) d of
             (Inl err, d1) \<Rightarrow> (Forwarded err, d1)
           | (Inr None, d1) \<Rightarrow> (Responded (404, ErrorBody ''Product not found''), d1)
           | (Inr (Some current), d1) \<Rightarrow>
               (let stockQuantity =
                      (case b_stock_quantity b of None \<Rightarrow> stock_quantity current | Some n \<Rightarrow> n);
                    inStock = (0 < stockQuantity)
                in case query e 1
                       (update_product p (now e)
                          \<lparr>name = (case b_name b of None \<Rightarrow> name current | Some n \<Rightarrow> n),
                           description =
                             (case b_description b of None \<Rightarrow> description current | Some x \<Rightarrow> Some x),
                           price = (case b_price b of None \<Rightarrow> price current | Some x \<Rightarrow> x),
                           original_price =
                             (case b_original_price b of
                                None \<Rightarrow> original_price current
                              | Some x \<Rightarrow> Some x),
                           category = (case b_category b of None \<Rightarrow> category current | Some c \<Rightarrow> c),
                           image_url =
                             (case b_image_url b of None \<Rightarrow> image_url current | Some x \<Rightarrow> Some x),
                           sizes = (case b_sizes b of None \<Rightarrow> sizes current | Some xs \<Rightarrow> xs),
                           colors = (case b_colors b of None \<Rightarrow> colors current | Some xs \<Rightarrow> xs),
                           in_stock = inStock,
                           featured = (case b_featured b of None \<Rightarrow> featured current | Some f \<Rightarrow> f),
                           stock_quantity = stockQuantity,
                           created_at = created_at current,
                           updated_at = now e\<rparr>) d1 of
                     (Inl err, d2) \<Rightarrow> (Forwarded err, d2)
                   | (Inr None, d2) \<Rightarrow> (Responded (200, Message ''Product updated''), d2)
                   | (Inr (Some row), d2) \<Rightarrow> (Responded (200, ProductBody p row), d2))))"

text \<open>
  \<^verbatim>\<open>DELETE FROM products WHERE id = $1 RETURNING id\<close>. The foreign key
  \<^verbatim>\<open>order_items.product_id ... ON DELETE SET NULL\<close> acts in the same statement.
\<close>

definition delete_product :: "uuid \<Rightarrow> db \<Rightarrow> sql_error + bool \<times> db" where
  "delete_product p d =
     (case products d p of
        None \<Rightarrow> Inr (False, d)
      | Some _ \<Rightarrow>
          Inr (True,
               d\<lparr>products := (products d)(p := None),
                 order_items :=
                   map (\<lambda>r. if oi_product_id r = Some p then r\<lparr>oi_product_id := None\<rparr> else r)
                     (order_items d)\<rparr>))"

definition admin_delete_product :: "env \<Rightarrow> uuid \<Rightarrow> db \<Rightarrow> outcome \<times> db" where
  "admin_delete_product e p d =
     (case query e 0 (delete_product p) d of
        (Inl err, d') \<Rightarrow> (Forwarded err, d')
      | (Inr False, d') \<Rightarrow> (Responded (404, ErrorBody ''Product not found''), d')
      | (Inr True, d') \<Rightarrow> (Responded (200, Message ''Product deleted''), d'))"

subsection \<open>The effect of the first loop as a function\<close>

text \<open>
  The row update of \<open>update_stock_minus\<close> without its range check, and the products table
  after the updates for a list of items. The lemmas below show that a run of the loop that
  reaches its end leaves exactly this table in the transaction.
\<close>

definition decrement_row ::
  "timestamp \<Rightarrow> order_item_input \<Rightarrow> (uuid \<rightharpoonup> product) \<Rightarrow> (uuid \<rightharpoonup> product)" where
  "decrement_row t item ps =
     (case ps (productId item) of
        None \<Rightarrow> ps
      | Some r \<Rightarrow>
          ps(productId item \<mapsto>
            r\<lparr>stock_quantity := stock_quantity r - quantity item,
              in_stock := (0 < stock_quantity r - quantity item),
              updated_at := t\<rparr>))"

text \<open>
  The checks of the first loop as a function: every item finds its product, with a stock
  that is not less than its quantity, in the table as the items before it have left it.
\<close>

fun can_reserve :: "timestamp \<Rightarrow> order_item_input list \<Rightarrow> (uuid \<rightharpoonup> product) \<Rightarrow> bool" where
  "can_reserve t [] ps = True"
| "can_reserve t (item # rest) ps =
     (case ps (productId item) of
        None \<Rightarrow> False
      | Some r \<Rightarrow> quantity item \<le> stock_quantity r \<and> can_reserve t rest (decrement_row t item ps))"

subsection \<open>A small store\<close>

text \<open>Concrete rows on which the theorems below are instantiated.\<close>

definition sneaker :: product where
  "sneaker =
     \<lparr>name = ''Sneaker'', description = None, price = 1999 / 100, original_price = None,
      category = ''shoes'', image_url = None, sizes = [], colors = [], in_stock = True,
      featured = False, stock_quantity = 3, created_at = 0, updated_at = 0\<rparr>"

definition shop :: db where
  "shop = \<lparr>users = {''u1''}, products = [''p1'' \<mapsto> sneaker], orders = [], order_items = []\<rparr>"

definition sold_out :: db where
  "sold_out = shop\<lparr>products := [''p1'' \<mapsto> sneaker\<lparr>stock_quantity := 0, in_stock := False\<rparr>]\<rparr>"

text \<open>
  An environment in which nothing fails, one whose fourth statement fails, and one whose
  fourth and fifth statements fail.
\<close>

definition calm :: env where
  "calm = \<lparr>connect_fails = False, stmt_fails = (\<lambda>k. False), now = 5, order_uuid = ''o1'',
           item_uuid = (\<lambda>k. replicate (Suc k) CHR ''i''), product_uuid = ''p2''\<rparr>"

definition flaky :: env where
  "flaky = calm\<lparr>stmt_fails := (\<lambda>k. k = 3)\<rparr>"


text \<open>A request of user \<open>u1\<close> for \<open>q\<close> pairs of the sneaker with the total \<open>t\<close>.\<close>

definition buy :: "int \<Rightarrow> rat \<Rightarrow> order_request" where
  "buy q t =
     \<lparr>userId = ''u1'',
      items = [\<lparr>productId = ''p1'', quantity = q, item_price = 1999 / 100, item_size = None,
                product_name = Some ''Sneaker''\<rparr>],
      order_total = t, shippingAddress = ''{}''\<rparr>"

text \<open>The order and the store that \<open>buy 3 (5997 / 100)\<close> leaves behind in \<open>shop\<close>.\<close>

definition receipt :: "rat \<Rightarrow> order_row" where
  "receipt t =
     \<lparr>o_id = ''o1'', o_user_id = ''u1'', o_status = ''pending'', o_total = t,
      o_shipping_address = Some ''{}'', o_created_at = 5, o_updated_at = 5\<rparr>"

definition sold_item :: order_item_row where
  "sold_item =
     \<lparr>oi_id = ''i'', oi_order_id = ''o1'', oi_product_id = Some ''p1'',
      oi_product_name = ''Sneaker'', oi_quantity = 3, oi_size = None,
      oi_price = 1999 / 100, oi_created_at = 5\<rparr>"

definition after_sale :: "rat \<Rightarrow> db" where
  "after_sale t =
     \<lparr>users = {''u1''},
      products = [''p1'' \<mapsto> sneaker\<lparr>stock_quantity := 0, in_stock := False, updated_at := 5\<rparr>],
      orders = [receipt t],
      order_items = [sold_item]\<rparr>"

text \<open>A body that changes the price only.\<close>

definition reprice :: "rat \<Rightarrow> product_body" where
  "reprice x =
     \<lparr>b_name = None, b_description = None, b_category = None, b_price = Some x,
      b_original_price = None, b_image_url = None, b_sizes = None, b_colors = None,
      b_featured = None, b_stock_quantity = None\<rparr>"

subsection \<open>Two requests at once\<close>

text \<open>
  The handler has no lock of its own: what two requests do to each other is decided by the
  row locks of the store. This part runs the same statements as small steps of several
  sessions over one store. A transaction sees the committed store with its own writes on
  top; \<^verbatim>\<open>SELECT ... FOR UPDATE\<close> waits while another transaction holds the lock of the
  row, takes the lock and then reads the row; the locks of a transaction go when it
  commits or rolls back.
\<close>

text \<open>
  The next statement of a session: \<open>AtStart\<close> before validation and \<^verbatim>\<open>getClient\<close>,
  \<open>AtBegin\<close> before \<^verbatim>\<open>BEGIN\<close>, \<open>AtSelect (item # rest)\<close> before the
  \<^verbatim>\<open>SELECT\<close> for \<open>item\<close> in the first loop, \<open>AtUpdate (item # rest)\<close> before its
  \<^verbatim>\<open>UPDATE\<close>, \<open>AtSelect []\<close> before the insert of the order, \<open>AtInsertItem\<close> in the
  second loop and, with no item left, before \<^verbatim>\<open>COMMIT\<close>, \<open>AtRefuse\<close> before the
  \<^verbatim>\<open>ROLLBACK\<close> of a refusal with its message, \<open>AtCatch\<close> before the \<^verbatim>\<open>ROLLBACK\<close> of the
  \<^verbatim>\<open>catch\<close> block.
\<close>

datatype pc =
    AtStart
  | AtBegin
  | AtSelect "order_item_input list"
  | AtUpdate "order_item_input list"
  | AtInsertItem order_row nat "order_item_input list"
  | AtRefuse string
  | AtCatch sql_error
  | Done outcome

record session =
  request :: order_request
  surroundings :: env
  pc :: pc
  written :: "uuid \<rightharpoonup> product"
  ins_orders :: "order_row list"
  ins_items :: "order_item_row list"

text \<open>The two sessions are named by the two truth values.\<close>

record config =
  store :: db
  lock :: "uuid \<rightharpoonup> bool"
  sess :: "bool \<Rightarrow> session"

definition view :: "db \<Rightarrow> session \<Rightarrow> db" where
  "view d s =
     d\<lparr>products := products d ++ written s,
       orders := orders d @ ins_orders s,
       order_items := order_items d @ ins_items s\<rparr>"

definition release_locks :: "bool \<Rightarrow> (uuid \<rightharpoonup> bool) \<Rightarrow> (uuid \<rightharpoonup> bool)" where
  "release_locks i l = (\<lambda>p. if l p = Some i then None else l p)"

text \<open>A session moves on inside its transaction.\<close>

definition goto :: "bool \<Rightarrow> session \<Rightarrow> config \<Rightarrow> config" where
  "goto i s c = c\<lparr>sess := (sess c)(i := s)\<rparr>"

text \<open>
  The transaction of a session ends: its locks go and its writes are forgotten (a commit
  has put them into the store before).
\<close>

definition finish :: "bool \<Rightarrow> outcome \<Rightarrow> config \<Rightarrow> config" where
  "finish i out c =
     c\<lparr>lock := release_locks i (lock c),
       sess := (sess c)(i := (sess c i)\<lparr>pc := Done out, written := Map.empty,
                                        ins_orders := [], ins_items := []\<rparr>)\<rparr>"

text \<open>
  One step of session \<open>i\<close>: the statement at its program point, with the branches of
  the handler around it. \<open>fails\<close> tells whether the statement fails for a reason outside
  the data (here the failures come from the schedule, not from \<open>stmt_fails\<close>); for the
  first step it tells whether \<^verbatim>\<open>getClient\<close> rejects. A session that waits for a lock
  does not move. When the \<^verbatim>\<open>ROLLBACK\<close> of the \<^verbatim>\<open>catch\<close> block fails, the connection
  is lost and the store ends the transaction by itself. The release of the client, which
  touches no row, is left out.
\<close>

definition sstep :: "bool \<Rightarrow> bool \<Rightarrow> config \<Rightarrow> config" where
  "sstep fails i c =
     (let s = sess c i; e = surroundings s; req = request s; d = view (store c) s
      in case pc s of
           AtStart \<Rightarrow>
             (case validation_error req of
                Some msg \<Rightarrow> finish i (Responded (400, ErrorBody msg)) c
              | None \<Rightarrow>
                  if fails then finish i (Forwarded StoreFault) c
                  else goto i (s\<lparr>pc := AtBegin\<rparr>) c)
         | AtBegin \<Rightarrow>
             if fails then goto i (s\<lparr>pc := AtCatch StoreFault\<rparr>) c
             else goto i (s\<lparr>pc := AtSelect (items req)\<rparr>) c
         | AtSelect (item # rest) \<Rightarrow>
             if fails then goto i (s\<lparr>pc := AtCatch StoreFault\<rparr>) c
             else if lock c (productId item) = Some (\<not> i) then c
             else
               (case select_for_update (productId item) d of
                  Inl err \<Rightarrow> goto i (s\<lparr>pc := AtCatch err\<rparr>) c
                | Inr (None, _) \<Rightarrow>
                    goto i (s\<lparr>pc := AtRefuse ''One or more products no longer exist''\<rparr>) c
                | Inr (Some product, _) \<Rightarrow>
                    goto i
                      (s\<lparr>pc :=
                           (if stock_quantity product < quantity item
                            then AtRefuse (''Insufficient stock for \"'' @ name product @ ''\"'')
                            else AtUpdate (item # rest))\<rparr>)
                      (c\<lparr>lock := (lock c)(productId item \<mapsto> i)\<rparr>))
         | AtUpdate [] \<Rightarrow> c
         | AtUpdate (item # rest) \<Rightarrow>
             if fails then goto i (s\<lparr>pc := AtCatch StoreFault\<rparr>) c
             else
               (case update_stock_minus (now e) (quantity item) (productId item) d of
                  Inl err \<Rightarrow> goto i (s\<lparr>pc := AtCatch err\<rparr>) c
                | Inr (_, d') \<Rightarrow>
                    goto i
                      (s\<lparr>pc := AtSelect rest,
                         written := (written s)(productId item := products d' (productId item))\<rparr>) c)
         | AtSelect [] \<Rightarrow>
             if fails then goto i (s\<lparr>pc := AtCatch StoreFault\<rparr>) c
             else
               (case insert_order (order_uuid e) (now e) (userId req) (order_total req)
                       (shippingAddress req) d of
                  Inl err \<Rightarrow> goto i (s\<lparr>pc := AtCatch err\<rparr>) c
                | Inr (order, d') \<Rightarrow>
                    goto i
                      (s\<lparr>pc := AtInsertItem order 0 (items req),
                         ins_orders := drop (length (orders (store c))) (orders d')\<rparr>) c)
         | AtInsertItem order k (item # rest) \<Rightarrow>
             if fails then goto i (s\<lparr>pc := AtCatch StoreFault\<rparr>) c
             else
               (case insert_order_item (order_item_params (item_uuid e k) (now e) (o_id order) item) d of
                  Inl err \<Rightarrow> goto i (s\<lparr>pc := AtCatch err\<rparr>) c
                | Inr (_, d') \<Rightarrow>
                    goto i
                      (s\<lparr>pc := AtInsertItem order (Suc k) rest,
                         ins_items := drop (length (order_items (store c))) (order_items d')\<rparr>) c)
         | AtInsertItem order k [] \<Rightarrow>
             if fails then goto i (s\<lparr>pc := AtCatch StoreFault\<rparr>) c
             else finish i (Responded (201, OrderPlaced order)) (c\<lparr>store := d\<rparr>)
         | AtRefuse msg \<Rightarrow>
             if fails then goto i (s\<lparr>pc := AtCatch StoreFault\<rparr>) c
             else finish i (Responded (400, ErrorBody msg)) c
         | AtCatch err \<Rightarrow>
             finish i (if fails then Unhandled StoreFault else Forwarded err) c
         | Done out \<Rightarrow> c)"

text \<open>A schedule says, step by step, which session moves and whether its statement fails.\<close>

definition run :: "(bool \<times> bool) list \<Rightarrow> config \<Rightarrow> config" where
  "run schedule c = fold (\<lambda>(i, fails). sstep fails i) schedule c"

definition arrive :: "env \<Rightarrow> order_request \<Rightarrow> session" where
  "arrive e req =
     \<lparr>request = req, surroundings = e, pc = AtStart, written = Map.empty,
      ins_orders = [], ins_items = []\<rparr>"

definition both :: "db \<Rightarrow> env \<Rightarrow> order_request \<Rightarrow> env \<Rightarrow> order_request \<Rightarrow> config" where
  "both d e1 req1 e2 req2 =
     \<lparr>store = d, lock = Map.empty,
      sess = (\<lambda>i. if i then arrive e1 req1 else arrive e2 req2)\<rparr>"

text \<open>The session has answered 201.\<close>

fun placed :: "pc \<Rightarrow> bool" where
  "placed (Done (Responded (n, OrderPlaced order))) = True"
| "placed _ = False"

text \<open>The quantity of product \<open>p\<close> that a list of items asks for.\<close>

definition asked :: "uuid \<Rightarrow> order_item_input list \<Rightarrow> int" where
  "asked p its = sum_list (map quantity (filter (\<lambda>i. productId i = p) its))"

text \<open>
  What holds of the product \<open>p\<close> in every configuration that two requests can reach
  from a store in which \<open>p\<close> has the stock \<open>s\<close>. \<open>progress\<close>: a session whose first
  loop has passed the items \<open>past\<close> has, if \<open>p\<close> is among them, the lock of the row and
  has written the stock less what \<open>past\<close> asks for, which is not negative.
  \<open>session_ok\<close>: the items that a session has passed and those still before it make up
  its request, and a session about to update \<open>p\<close> holds the lock and has seen enough
  stock. \<open>no_oversell\<close>: the stock in the store is not negative and is \<open>s\<close> less what the
  placed orders asked for.
\<close>

definition progress :: "uuid \<Rightarrow> bool \<Rightarrow> config \<Rightarrow> order_item_input list \<Rightarrow> bool" where
  "progress p i c past =
     (if p \<in> productId ` set past
      then lock c p = Some i \<and>
           (\<exists>r r'. products (store c) p = Some r \<and> written (sess c i) p = Some r' \<and>
              stock_quantity r' = stock_quantity r - asked p past \<and> 0 \<le> stock_quantity r')
      else written (sess c i) p = None)"

definition session_ok :: "uuid \<Rightarrow> bool \<Rightarrow> config \<Rightarrow> bool" where
  "session_ok p i c =
     (case pc (sess c i) of
        AtStart \<Rightarrow> written (sess c i) p = None
      | AtBegin \<Rightarrow> written (sess c i) p = None
      | AtSelect rest \<Rightarrow>
          (\<exists>past. items (request (sess c i)) = past @ rest \<and> progress p i c past)
      | AtUpdate rest \<Rightarrow>
          (\<exists>past item rest'. rest = item # rest' \<and>
             items (request (sess c i)) = past @ rest \<and> progress p i c past \<and>
             (productId item = p \<longrightarrow>
                lock c p = Some i \<and>
                (\<exists>r. products (store c) p = Some r \<and>
                   asked p past + quantity item \<le> stock_quantity r)))
      | AtInsertItem order k rest \<Rightarrow> progress p i c (items (request (sess c i)))
      | AtRefuse msg \<Rightarrow> True
      | AtCatch err \<Rightarrow> True
      | Done out \<Rightarrow> True)"

definition no_oversell :: "uuid \<Rightarrow> int \<Rightarrow> config \<Rightarrow> bool" where
  "no_oversell p s c =
     (session_ok p True c \<and> session_ok p False c \<and>
      (\<exists>r. products (store c) p = Some r \<and> 0 \<le> stock_quantity r \<and>
         stock_quantity r
           + (if placed (pc (sess c True)) then asked p (items (request (sess c True))) else 0)
           + (if placed (pc (sess c False)) then asked p (items (request (sess c False))) else 0)
         = s))"

text \<open>
  A schedule for two sessions: the first takes the lock, the second arrives and waits, the
  first inserts and commits, the second reads the row and is refused.
\<close>

definition rush :: "(bool \<times> bool) list" where
  "rush =
     [(True, False), (True, False), (True, False), (False, False), (False, False),
      (False, False), (True, False), (True, False), (True, False), (True, False),
      (False, False), (False, False)]"


section \<open>Statements inside a transaction\<close>

lemma client_query_txn:
  assumes "pending w = Some d" and "client_query e stmt w = (r, w')"
  shows "committed w' = committed w \<and> acquired w' = acquired w \<and> released w' = released w"
    and "\<And>err. r = Inl err \<Longrightarrow> pending w' = Some d"
    and "\<And>x. r = Inr x \<Longrightarrow> \<exists>d'. stmt d = Inr (x, d') \<and> pending w' = Some d'"
  using assms by (auto simp: client_query_def Let_def split: if_splits sum.splits)

lemma client_rollback_frame:
  assumes "client_rollback e w = (r, w')"
  shows "committed w' = committed w \<and> acquired w' = acquired w \<and> released w' = released w"
    and "\<And>x. r = Inr x \<Longrightarrow> pending w' = None"
    and "\<And>err. r = Inl err \<Longrightarrow> pending w' = pending w"
  using assms by (auto simp: client_rollback_def Let_def split: if_splits)

lemma client_begin_frame:
  assumes "client_begin e w = (r, w')" and "pending w = None"
  shows "committed w' = committed w \<and> acquired w' = acquired w \<and> released w' = released w"
    and "\<And>x. r = Inr x \<Longrightarrow> pending w' = Some (committed w)"
    and "\<And>err. r = Inl err \<Longrightarrow> pending w' = None"
  using assms by (auto simp: client_begin_def Let_def split: if_splits)

lemma client_commit_frame:
  assumes "client_commit e w = (r, w')" and "pending w = Some d"
  shows "acquired w' = acquired w \<and> released w' = released w"
    and "\<And>x. r = Inr x \<Longrightarrow> pending w' = None \<and> committed w' = d"
    and "\<And>err. r = Inl err \<Longrightarrow> pending w' = Some d \<and> committed w' = committed w"
  using assms by (auto simp: client_commit_def Let_def split: if_splits)

lemma select_for_update_result:
  "select_for_update p d = Inr (x, d') \<Longrightarrow> x = products d p \<and> d' = d"
  by (auto simp: select_for_update_def)

lemma update_stock_minus_result:
  assumes "update_stock_minus t q p d = Inr (x, d')" and "products d p = Some r"
  shows "d' = d\<lparr>products := (products d)(p \<mapsto>
           r\<lparr>stock_quantity := stock_quantity r - q, in_stock := (0 < stock_quantity r - q),
             updated_at := t\<rparr>)\<rparr>"
  using assms by (auto simp: update_stock_minus_def int4_def split: if_splits)

lemma reserve_stock_txn:
  "pending w = Some d \<Longrightarrow> reserve_stock e its w = (r, w') \<Longrightarrow>
     committed w' = committed w \<and> acquired w' = acquired w \<and> released w' = released w \<and>
     (r = Inr None \<longrightarrow>
        pending w' = Some (d\<lparr>products := fold (decrement_row (now e)) its (products d)\<rparr>) \<and>
        can_reserve (now e) its (products d)) \<and>
     (\<forall>resp. r = Inr (Some resp) \<longrightarrow> fst resp = 400 \<and> pending w' = None) \<and>
     (\<forall>err. r = Inl err \<longrightarrow> pending w' \<noteq> None)"
proof (induction its arbitrary: w d)
  case Nil
  then show ?case by auto
next
  case (Cons item rest)
  obtain r1 w1 where q1: "client_query e (select_for_update (productId item)) w = (r1, w1)"
    by (cases "client_query e (select_for_update (productId item)) w")
  note f1 = client_query_txn [OF Cons.prems(1) q1]
  show ?case
  proof (cases r1)
    case (Inl err)
    with Cons.prems(2) q1 f1(1) f1(2) show ?thesis by auto
  next
    case (Inr found)
    from f1(3) [OF Inr] have p1: "pending w1 = Some d" and found: "found = products d (productId item)"
      by (auto dest: select_for_update_result)
    show ?thesis
    proof (cases "found = None \<or> stock_quantity (the found) < quantity item")
      case True
      obtain r2 w2 where q2: "client_rollback e w1 = (r2, w2)"
        by (cases "client_rollback e w1")
      note f2 = client_rollback_frame [OF q2]
      from True Cons.prems(2) q1 Inr q2
      have "w' = w2 \<and> (case r2 of Inl err \<Rightarrow> r = Inl err | Inr u \<Rightarrow> \<exists>resp. r = Inr (Some resp) \<and> fst resp = 400)"
        by (cases found; cases r2) (auto split: if_splits)
      with f2 f1(1) p1 show ?thesis by (cases r2) auto
    next
      case False
      then obtain product where some: "found = Some product"
        and enough: "\<not> stock_quantity product < quantity item" by auto
      obtain r2 w2 where q2:
        "client_query e (update_stock_minus (now e) (quantity item) (productId item)) w1 = (r2, w2)"
        by (cases "client_query e (update_stock_minus (now e) (quantity item) (productId item)) w1")
      note f2 = client_query_txn [OF p1 q2]
      show ?thesis
      proof (cases r2)
        case (Inl err)
        with Cons.prems(2) q1 Inr some enough q2 have "w' = w2 \<and> r = Inl err" by simp
        with f2(1) f2(2) [OF Inl] f1(1) show ?thesis by simp
      next
        case (Inr u)
        from f2(3) [OF Inr] obtain d2 where
          u: "update_stock_minus (now e) (quantity item) (productId item) d = Inr (u, d2)"
          and p2: "pending w2 = Some d2" by blast
        from some found have "products d (productId item) = Some product" by simp
        from update_stock_minus_result [OF u this]
        have d2: "d2 = d\<lparr>products := decrement_row (now e) item (products d)\<rparr>"
          using \<open>products d (productId item) = Some product\<close> by (simp add: decrement_row_def)
        from Cons.prems(2) q1 \<open>r1 = Inr found\<close> some enough q2 Inr
        have "reserve_stock e rest w2 = (r, w')" by simp
        from Cons.IH [OF p2 this] f2(1) f1(1) d2 enough
          \<open>products d (productId item) = Some product\<close>
        show ?thesis by simp
      qed
    qed
  qed
qed

lemma insert_order_item_result:
  assumes "insert_order_item v d = Inr (u, d')"
  shows "\<exists>p. decimal_10_2 (oi_price v) = Inr p \<and>
           d' = d\<lparr>order_items := order_items d @ [v\<lparr>oi_price := p\<rparr>]\<rparr>"
  using assms
  by (auto simp: insert_order_item_def int4_def split: sum.splits if_splits)

lemma insert_items_txn:
  "pending w = Some d \<Longrightarrow> insert_items e oid k its w = (r, w') \<Longrightarrow>
     committed w' = committed w \<and> acquired w' = acquired w \<and> released w' = released w \<and>
     pending w' \<noteq> None \<and>
     (\<forall>u. r = Inr u \<longrightarrow>
        (\<exists>rows. pending w' = Some (d\<lparr>order_items := order_items d @ rows\<rparr>) \<and>
           list_all2 (\<lambda>i row. \<exists>nid p. decimal_10_2 (item_price i) = Inr p \<and>
                         row = (order_item_params nid (now e) oid i)\<lparr>oi_price := p\<rparr>) its rows))"
proof (induction its arbitrary: w d k)
  case Nil
  then show ?case by auto
next
  case (Cons item rest)
  let ?v = "order_item_params (item_uuid e k) (now e) oid item"
  obtain r1 w1 where q1: "client_query e (insert_order_item ?v) w = (r1, w1)"
    by (cases "client_query e (insert_order_item ?v) w")
  note f1 = client_query_txn [OF Cons.prems(1) q1]
  show ?case
  proof (cases r1)
    case (Inl err)
    with Cons.prems(2) q1 f1(1) f1(2) show ?thesis by auto
  next
    case (Inr u1)
    from f1(3) [OF Inr] obtain d1 where
      s1: "insert_order_item ?v d = Inr (u1, d1)" and p1: "pending w1 = Some d1" by blast
    from insert_order_item_result [OF s1] obtain p where
      p: "decimal_10_2 (item_price item) = Inr p"
      and d1: "d1 = d\<lparr>order_items := order_items d @ [?v\<lparr>oi_price := p\<rparr>]\<rparr>"
      by (auto simp: order_item_params_def)
    from Cons.prems(2) q1 Inr have rest: "insert_items e oid (Suc k) rest w1 = (r, w')" by simp
    note ih = Cons.IH [OF p1 rest]
    show ?thesis
    proof (intro conjI allI impI)
      fix u assume "r = Inr u"
      with ih obtain rows where
        rows: "pending w' = Some (d1\<lparr>order_items := order_items d1 @ rows\<rparr>)"
        and all: "list_all2 (\<lambda>i row. \<exists>nid p. decimal_10_2 (item_price i) = Inr p \<and>
                         row = (order_item_params nid (now e) oid i)\<lparr>oi_price := p\<rparr>) rest rows"
        by blast
      from rows d1 have "pending w' = Some (d\<lparr>order_items := order_items d @ (?v\<lparr>oi_price := p\<rparr> # rows)\<rparr>)"
        by simp
      moreover from all p have "list_all2 (\<lambda>i row. \<exists>nid p. decimal_10_2 (item_price i) = Inr p \<and>
                         row = (order_item_params nid (now e) oid i)\<lparr>oi_price := p\<rparr>) (item # rest) (?v\<lparr>oi_price := p\<rparr> # rows)"
        by auto
      ultimately show "\<exists>rows. pending w' = Some (d\<lparr>order_items := order_items d @ rows\<rparr>) \<and>
           list_all2 (\<lambda>i row. \<exists>nid p. decimal_10_2 (item_price i) = Inr p \<and>
                         row = (order_item_params nid (now e) oid i)\<lparr>oi_price := p\<rparr>) (item # rest) rows"
        by blast
    qed (use ih f1(1) in simp_all)
  qed
qed

lemma insert_order_result:
  assumes "insert_order new_id t uid amount address d = Inr (row, d')"
  shows "\<exists>amount'. decimal_10_2 amount = Inr amount' \<and>
           row = \<lparr>o_id = new_id, o_user_id = uid, o_status = ''pending'', o_total = amount',
                  o_shipping_address = Some address, o_created_at = t, o_updated_at = t\<rparr> \<and>
           d' = d\<lparr>orders := orders d @ [row]\<rparr>"
  using assms
  by (auto simp: insert_order_def Let_def split: sum.splits if_splits)

lemma transaction_txn:
  assumes none: "pending w = None" and run: "transaction e req w = (r, w')"
  shows "acquired w' = acquired w \<and> released w' = released w \<and>
    ((committed w' = committed w \<and>
        ((\<exists>err. r = Inl err) \<or>
         (\<exists>resp. r = Inr resp \<and> fst resp = 400 \<and> pending w' = None)))
     \<or> (\<exists>ord amount' rows.
           r = Inr (201, OrderPlaced ord) \<and>
           decimal_10_2 (order_total req) = Inr amount' \<and>
           ord = \<lparr>o_id = order_uuid e, o_user_id = userId req, o_status = ''pending'',
                  o_total = amount', o_shipping_address = Some (shippingAddress req),
                  o_created_at = now e, o_updated_at = now e\<rparr> \<and>
           list_all2 (\<lambda>i row. \<exists>nid p. decimal_10_2 (item_price i) = Inr p \<and>
                         row = (order_item_params nid (now e) (o_id ord) i)\<lparr>oi_price := p\<rparr>)
             (items req) rows \<and>
           committed w' = (committed w)
             \<lparr>products := fold (decrement_row (now e)) (items req) (products (committed w)),
              orders := orders (committed w) @ [ord],
              order_items := order_items (committed w) @ rows\<rparr> \<and>
           pending w' = None \<and>
           can_reserve (now e) (items req) (products (committed w))))"
proof -
  obtain r1 w1 where q1: "client_begin e w = (r1, w1)" by (cases "client_begin e w")
  note f1 = client_begin_frame [OF q1 none]
  show ?thesis
  proof (cases r1)
    case (Inl err)
    with run q1 have "r = Inl err \<and> w' = w1" by (simp add: transaction_def)
    with f1(1) show ?thesis by simp
  next
    case b: (Inr u1)
    from f1(2) [OF b] have p1: "pending w1 = Some (committed w)" .
    obtain r2 w2 where q2: "reserve_stock e (items req) w1 = (r2, w2)"
      by (cases "reserve_stock e (items req) w1")
    note f2 = reserve_stock_txn [OF p1 q2]
    show ?thesis
    proof (cases r2)
      case (Inl err)
      with run q1 b q2 have "r = Inl err \<and> w' = w2" by (simp add: transaction_def)
      with f1(1) f2 show ?thesis by simp
    next
      case l: (Inr early)
      show ?thesis
      proof (cases early)
        case (Some resp)
        with run q1 b q2 l have "r = Inr resp \<and> w' = w2" by (simp add: transaction_def)
        with f1(1) f2 l Some show ?thesis by simp
      next
        case None
        let ?d2 = "(committed w)\<lparr>products := fold (decrement_row (now e)) (items req) (products (committed w))\<rparr>"
        from f2 l None have p2: "pending w2 = Some ?d2" by simp
        let ?ins = "insert_order (order_uuid e) (now e) (userId req) (order_total req) (shippingAddress req)"
        obtain r3 w3 where q3: "client_query e ?ins w2 = (r3, w3)"
          by (cases "client_query e ?ins w2")
        note f3 = client_query_txn [OF p2 q3]
        show ?thesis
        proof (cases r3)
          case (Inl err)
          with run q1 b q2 l None q3 have "r = Inl err \<and> w' = w3" by (simp add: transaction_def)
          with f1(1) f2 f3(1) show ?thesis by simp
        next
          case o: (Inr ord)
          from f3(3) [OF o] obtain d3 where s3: "?ins ?d2 = Inr (ord, d3)"
            and p3: "pending w3 = Some d3" by blast
          from insert_order_result [OF s3] obtain amount' where
            am: "decimal_10_2 (order_total req) = Inr amount'"
            and ord: "ord = \<lparr>o_id = order_uuid e, o_user_id = userId req, o_status = ''pending'',
                  o_total = amount', o_shipping_address = Some (shippingAddress req),
                  o_created_at = now e, o_updated_at = now e\<rparr>"
            and d3: "d3 = ?d2\<lparr>orders := orders ?d2 @ [ord]\<rparr>" by blast
          obtain r4 w4 where q4: "insert_items e (o_id ord) 0 (items req) w3 = (r4, w4)"
            by (cases "insert_items e (o_id ord) 0 (items req) w3")
          note f4 = insert_items_txn [OF p3 q4]
          show ?thesis
          proof (cases r4)
            case (Inl err)
            with run q1 b q2 l None q3 o q4 have "r = Inl err \<and> w' = w4"
              by (simp add: transaction_def)
            with f1(1) f2 f3(1) f4 show ?thesis by simp
          next
            case i: (Inr u4)
            with f4 obtain rows where
              p4: "pending w4 = Some (d3\<lparr>order_items := order_items d3 @ rows\<rparr>)"
              and rows: "list_all2 (\<lambda>i row. \<exists>nid p. decimal_10_2 (item_price i) = Inr p \<and>
                         row = (order_item_params nid (now e) (o_id ord) i)\<lparr>oi_price := p\<rparr>)
                  (items req) rows" by blast
            obtain r5 w5 where q5: "client_commit e w4 = (r5, w5)" by (cases "client_commit e w4")
            note f5 = client_commit_frame [OF q5 p4]
            show ?thesis
            proof (cases r5)
              case (Inl err)
              with run q1 b q2 l None q3 o q4 i q5 have "r = Inl err \<and> w' = w5"
                by (simp add: transaction_def)
              with f1(1) f2 f3(1) f4 f5(1) f5(3) [OF Inl] show ?thesis by simp
            next
              case c: (Inr u5)
              with run q1 b q2 l None q3 o q4 i q5
              have res: "r = Inr (201, OrderPlaced ord) \<and> w' = w5"
                by (simp add: transaction_def)
              from f5(2) [OF c] d3
              have cm: "committed w5 = (committed w)
                 \<lparr>products := fold (decrement_row (now e)) (items req) (products (committed w)),
                  orders := orders (committed w) @ [ord],
                  order_items := order_items (committed w) @ rows\<rparr>"
                and pn: "pending w5 = None" by simp_all
              from res f1(1) f2 f3(1) f4 f5(1)
              have fr: "acquired w' = acquired w \<and> released w' = released w" by simp
              have "\<exists>ord amount' rows.
                 r = Inr (201, OrderPlaced ord) \<and>
                 decimal_10_2 (order_total req) = Inr amount' \<and>
                 ord = \<lparr>o_id = order_uuid e, o_user_id = userId req, o_status = ''pending'',
                  o_total = amount', o_shipping_address = Some (shippingAddress req),
                  o_created_at = now e, o_updated_at = now e\<rparr> \<and>
                 list_all2 (\<lambda>i row. \<exists>nid p. decimal_10_2 (item_price i) = Inr p \<and>
                         row = (order_item_params nid (now e) (o_id ord) i)\<lparr>oi_price := p\<rparr>)
                   (items req) rows \<and>
                 committed w' = (committed w)
                  \<lparr>products := fold (decrement_row (now e)) (items req) (products (committed w)),
                   orders := orders (committed w) @ [ord],
                   order_items := order_items (committed w) @ rows\<rparr> \<and>
                 pending w' = None \<and>
                 can_reserve (now e) (items req) (products (committed w))"
              proof (intro exI conjI)
                show "r = Inr (201, OrderPlaced ord)" using res by simp
                show "decimal_10_2 (order_total req) = Inr amount'" by (rule am)
                show "ord = \<lparr>o_id = order_uuid e, o_user_id = userId req, o_status = ''pending'',
                  o_total = amount', o_shipping_address = Some (shippingAddress req),
                  o_created_at = now e, o_updated_at = now e\<rparr>" by (rule ord)
                show "list_all2 (\<lambda>i row. \<exists>nid p. decimal_10_2 (item_price i) = Inr p \<and>
                         row = (order_item_params nid (now e) (o_id ord) i)\<lparr>oi_price := p\<rparr>)
                   (items req) rows" by (rule rows)
                show "committed w' = (committed w)
                  \<lparr>products := fold (decrement_row (now e)) (items req) (products (committed w)),
                   orders := orders (committed w) @ [ord],
                   order_items := order_items (committed w) @ rows\<rparr>" using res cm by simp
                show "pending w' = None" using res pn by simp
                show "can_reserve (now e) (items req) (products (committed w))"
                  using f2 l None by simp
              qed
              with fr show ?thesis by blast
            qed
          qed
        qed
      qed
    qed
  qed
qed

lemma post_orders_on_cases:
  assumes clean: "pending w0 = None" and run: "post_orders_on e req w0 = (out, w)"
  shows "acquired w = acquired w0 + (if validation_error req = None \<and> \<not> connect_fails e then 1 else 0) \<and>
    released w = released w0 + (if validation_error req = None \<and> \<not> connect_fails e then 1 else 0) \<and>
    ((committed w = committed w0 \<and>
        ((\<exists>err. out = Forwarded err \<and> pending w = None) \<or> (\<exists>err. out = Unhandled err) \<or>
         (\<exists>resp. out = Responded resp \<and> fst resp = 400 \<and> pending w = None)))
     \<or> (\<exists>ord amount' rows.
           out = Responded (201, OrderPlaced ord) \<and>
           decimal_10_2 (order_total req) = Inr amount' \<and>
           ord = \<lparr>o_id = order_uuid e, o_user_id = userId req, o_status = ''pending'',
                  o_total = amount', o_shipping_address = Some (shippingAddress req),
                  o_created_at = now e, o_updated_at = now e\<rparr> \<and>
           list_all2 (\<lambda>i row. \<exists>nid p. decimal_10_2 (item_price i) = Inr p \<and>
                         row = (order_item_params nid (now e) (o_id ord) i)\<lparr>oi_price := p\<rparr>)
             (items req) rows \<and>
           committed w = (committed w0)
             \<lparr>products := fold (decrement_row (now e)) (items req) (products (committed w0)),
              orders := orders (committed w0) @ [ord],
              order_items := order_items (committed w0) @ rows\<rparr> \<and>
           pending w = None \<and> validation_error req = None \<and>
           can_reserve (now e) (items req) (products (committed w0))))"
proof (cases "validation_error req")
  case (Some msg)
  with run clean show ?thesis
    by (auto simp: post_orders_on_def try_block_def finally_block_def)
next
  case None
  show ?thesis
  proof (cases "connect_fails e")
    case True
    with None run clean show ?thesis
      by (auto simp: post_orders_on_def try_block_def getClient_def catch_block_def
          finally_block_def)
  next
    case False
    define w1 where "w1 = w0\<lparr>acquired := Suc (acquired w0)\<rparr>"
    have w1: "pending w1 = None" "committed w1 = committed w0"
      "acquired w1 = acquired w0 + 1" "released w1 = released w0"
      using clean by (simp_all add: w1_def)
    obtain r2 w2 where t: "transaction e req w1 = (r2, w2)" by (cases "transaction e req w1")
    have tb: "try_block e req w0 = (True, r2, w2)"
      using None False t by (simp add: try_block_def getClient_def w1_def)
    note f1 = transaction_txn [OF w1(1) t]
    show ?thesis
    proof (cases r2)
      case (Inr resp)
      with run tb have res: "out = Responded resp \<and> w = client_release w2"
        by (simp add: post_orders_on_def finally_block_def)
      with f1 w1 Inr None False show ?thesis
        by (auto simp: client_release_def)
    next
      case (Inl err)
      obtain r3 w3 where rb: "client_rollback e w2 = (r3, w3)" by (cases "client_rollback e w2")
      note f2 = client_rollback_frame(1) [OF rb]
      show ?thesis
      proof (cases r3)
        case ok: (Inr u)
        from client_rollback_frame(2) [OF rb ok] have p3: "pending w3 = None" .
        from run tb Inl rb ok
        have res: "out = Forwarded err \<and> w = client_release w3"
          by (simp add: post_orders_on_def catch_block_def finally_block_def)
        with f1 f2 p3 w1 Inl None False show ?thesis
          by (auto simp: client_release_def)
      next
        case bad: (Inl err')
        from run tb Inl rb bad
        have res: "out = Unhandled err' \<and> w = client_release w3"
          by (simp add: post_orders_on_def catch_block_def finally_block_def)
        with f1 f2 w1 Inl None False show ?thesis
          by (auto simp: client_release_def)
      qed
    qed
  qed
qed

lemma post_orders_cases:
  assumes run: "post_orders e req d = (out, w)"
  shows "released w = acquired w \<and>
    acquired w = (if validation_error req = None \<and> \<not> connect_fails e then 1 else 0) \<and>
    ((committed w = d \<and>
        ((\<exists>err. out = Forwarded err) \<or> (\<exists>err. out = Unhandled err) \<or>
         (\<exists>resp. out = Responded resp \<and> fst resp = 400)))
     \<or> (\<exists>ord amount' rows.
           out = Responded (201, OrderPlaced ord) \<and>
           decimal_10_2 (order_total req) = Inr amount' \<and>
           ord = \<lparr>o_id = order_uuid e, o_user_id = userId req, o_status = ''pending'',
                  o_total = amount', o_shipping_address = Some (shippingAddress req),
                  o_created_at = now e, o_updated_at = now e\<rparr> \<and>
           list_all2 (\<lambda>i row. \<exists>nid p. decimal_10_2 (item_price i) = Inr p \<and>
                         row = (order_item_params nid (now e) (o_id ord) i)\<lparr>oi_price := p\<rparr>)
             (items req) rows \<and>
           committed w = d
             \<lparr>products := fold (decrement_row (now e)) (items req) (products d),
              orders := orders d @ [ord],
              order_items := order_items d @ rows\<rparr> \<and>
           pending w = None \<and> validation_error req = None \<and>
           can_reserve (now e) (items req) (products d)))"
proof -
  have clean: "pending (fresh_world d) = None" by (simp add: fresh_world_def)
  from run have on: "post_orders_on e req (fresh_world d) = (out, w)"
    by (simp add: post_orders_def)
  have fw: "committed (fresh_world d) = d" "acquired (fresh_world d) = 0"
    "released (fresh_world d) = 0" by (simp_all add: fresh_world_def)
  from post_orders_on_cases [OF clean on] show ?thesis
    unfolding fw by (elim conjE disjE exE) auto
qed

text \<open>
  On a client with nothing open, a request that does not end in a failed \<^verbatim>\<open>ROLLBACK\<close>
  leaves nothing open.
\<close>

lemma post_orders_on_leaves_clean:
  assumes "pending w0 = None" and "post_orders_on e req w0 = (out, w)"
    and "\<And>err. out \<noteq> Unhandled err"
  shows "pending w = None"
  using post_orders_on_cases [OF assms(1,2)] assms(3) by auto

lemma decrement_row_apply:
  "decrement_row t item ps p =
     (if p = productId item
      then map_option (\<lambda>r. r\<lparr>stock_quantity := stock_quantity r - quantity item,
                             in_stock := (0 < stock_quantity r - quantity item),
                             updated_at := t\<rparr>) (ps p)
      else ps p)"
  by (simp add: decrement_row_def split: option.splits)

lemma fold_decrement_row:
  "fold (decrement_row t) its ps p =
     (case ps p of
        None \<Rightarrow> None
      | Some r \<Rightarrow>
          Some (if p \<in> productId ` set its
                then r\<lparr>stock_quantity :=
                         stock_quantity r - sum_list (map quantity (filter (\<lambda>i. productId i = p) its)),
                       in_stock :=
                         (0 < stock_quantity r - sum_list (map quantity (filter (\<lambda>i. productId i = p) its))),
                       updated_at := t\<rparr>
                else r))"
proof (induction its arbitrary: ps)
  case Nil
  then show ?case by (simp split: option.splits)
next
  case (Cons item rest)
  let ?rest = "\<lambda>r. if p \<in> productId ` set rest
                then r\<lparr>stock_quantity :=
                         stock_quantity r - sum_list (map quantity (filter (\<lambda>i. productId i = p) rest)),
                       in_stock :=
                         (0 < stock_quantity r - sum_list (map quantity (filter (\<lambda>i. productId i = p) rest))),
                       updated_at := t\<rparr>
                else r"
  have nf: "p \<notin> productId ` set rest \<Longrightarrow> filter (\<lambda>i. productId i = p) rest = []"
    by (auto simp: filter_empty_conv)
  have "fold (decrement_row t) (item # rest) ps p =
        (case decrement_row t item ps p of None \<Rightarrow> None | Some r \<Rightarrow> Some (?rest r))"
    using Cons.IH [of "decrement_row t item ps"] by simp
  also have "\<dots> =
     (case ps p of
        None \<Rightarrow> None
      | Some r \<Rightarrow>
          Some (if p \<in> productId ` set (item # rest)
                then r\<lparr>stock_quantity :=
                         stock_quantity r - sum_list (map quantity (filter (\<lambda>i. productId i = p) (item # rest))),
                       in_stock :=
                         (0 < stock_quantity r - sum_list (map quantity (filter (\<lambda>i. productId i = p) (item # rest)))),
                       updated_at := t\<rparr>
                else r))"
    using nf by (cases "ps p")
       (auto simp: decrement_row_apply diff_diff_eq less_diff_eq add.commute)
  finally show ?case .
qed

lemma can_reserve_sum:
  "can_reserve t its ps \<Longrightarrow> p \<in> productId ` set its \<Longrightarrow>
     \<exists>r. ps p = Some r \<and>
         sum_list (map quantity (filter (\<lambda>i. productId i = p) its)) \<le> stock_quantity r"
proof (induction its arbitrary: ps)
  case Nil
  then show ?case by simp
next
  case (Cons item rest)
  from Cons.prems(1) obtain r0 where r0: "ps (productId item) = Some r0"
    and q: "quantity item \<le> stock_quantity r0"
    and rest: "can_reserve t rest (decrement_row t item ps)"
    by (auto split: option.splits)
  show ?case
  proof (cases "p \<in> productId ` set rest")
    case True
    from Cons.IH [OF rest True] obtain r where
      r: "decrement_row t item ps p = Some r"
      and le: "sum_list (map quantity (filter (\<lambda>i. productId i = p) rest)) \<le> stock_quantity r"
      by blast
    from r r0 le show ?thesis
      by (cases "p = productId item") (auto simp: decrement_row_apply)
  next
    case False
    then have "filter (\<lambda>i. productId i = p) rest = []" by (auto simp: filter_empty_conv)
    moreover from False Cons.prems(2) have "p = productId item" by auto
    ultimately show ?thesis using r0 q by simp
  qed
qed

lemma placed_order_had_stock:
  assumes "post_orders e req d = (Responded (201, OrderPlaced ord), w)"
    and "p \<in> productId ` set (items req)"
  shows "\<exists>r. products d p = Some r \<and>
           sum_list (map quantity (filter (\<lambda>i. productId i = p) (items req))) \<le> stock_quantity r"
proof -
  from post_orders_cases [OF assms(1)] have "can_reserve (now e) (items req) (products d)"
    by auto
  from can_reserve_sum [OF this assms(2)] show ?thesis .
qed

lemma decimal_10_2_examples:
  "decimal_10_2 (1999 / 100) = Inr (1999 / 100)"
  "decimal_10_2 (2999 / 100) = Inr (2999 / 100)"
  "decimal_10_2 (5997 / 100) = Inr (5997 / 100)"
  "decimal_10_2 (59999 / 1000) = Inr 60"
  by code_simp+

lemmas run_defs =
  post_orders_def post_orders_on_def try_block_def catch_block_def finally_block_def transaction_def
  getClient_def client_release_def client_query_def client_begin_def client_commit_def
  client_rollback_def fresh_world_def validation_error_def select_for_update_def
  update_stock_minus_def insert_order_def insert_order_item_def order_item_params_def
  or_null_def int4_def Let_def

lemma run_buy_3:
  "decimal_10_2 t = Inr t' \<Longrightarrow> 0 \<le> t \<Longrightarrow>
   post_orders calm (buy 3 t) shop =
     (Responded (201, OrderPlaced (receipt t')),
      \<lparr>committed = after_sale t', pending = None, sent = 6, acquired = 1, released = 1\<rparr>)"
  by (simp add: run_defs calm_def buy_def shop_def sneaker_def receipt_def after_sale_def
      sold_item_def decimal_10_2_examples)

lemma run_buy_4:
  "post_orders calm (buy 4 t) shop =
     (if t < 0 then (Responded (400, ErrorBody ''Total must be a valid number''), fresh_world shop)
      else (Responded (400, ErrorBody ''Insufficient stock for \"Sneaker\"''),
      \<lparr>committed = shop, pending = None, sent = 3, acquired = 1, released = 1\<rparr>))"
  by (simp add: run_defs calm_def buy_def shop_def sneaker_def decimal_10_2_examples)

lemma run_buy_flaky:
  "0 \<le> t \<Longrightarrow> post_orders flaky (buy 3 t) shop =
     (Forwarded StoreFault,
      \<lparr>committed = shop, pending = None, sent = 5, acquired = 1, released = 1\<rparr>)"
  by (simp add: run_defs flaky_def calm_def buy_def shop_def sneaker_def decimal_10_2_examples)

section \<open>Rounding to the column type\<close>

lemma round_half_away_near: "\<bar>of_int (round_half_away x) - x\<bar> \<le> 1 / 2"
proof (cases "0 \<le> x")
  case True
  then have r: "round_half_away x = \<lfloor>x + 1 / 2\<rfloor>" by (simp add: round_half_away_def)
  have "of_int \<lfloor>x + 1 / 2\<rfloor> \<le> x + 1 / 2" "x + 1 / 2 < of_int \<lfloor>x + 1 / 2\<rfloor> + 1"
    by linarith+
  then show ?thesis unfolding r abs_le_iff by (intro conjI) linarith+
next
  case False
  then have r: "round_half_away x = - \<lfloor>- x + 1 / 2\<rfloor>" by (simp add: round_half_away_def)
  have "of_int \<lfloor>- x + 1 / 2\<rfloor> \<le> - x + 1 / 2" "- x + 1 / 2 < of_int \<lfloor>- x + 1 / 2\<rfloor> + 1"
    by linarith+
  then show ?thesis unfolding r abs_le_iff of_int_minus by (intro conjI) linarith+
qed

lemma round_half_away_of_int: "round_half_away (of_int n) = n"
proof (cases "0 \<le> n")
  case True
  have "\<lfloor>(of_int n :: rat) + 1 / 2\<rfloor> = n" by (simp add: floor_eq_iff)
  with True show ?thesis by (simp add: round_half_away_def)
next
  case False
  have "\<lfloor>- (of_int n :: rat) + 1 / 2\<rfloor> = - n" by (simp add: floor_eq_iff)
  with False show ?thesis by (simp add: round_half_away_def)
qed

lemma decimal_10_2_near:
  assumes "decimal_10_2 x = Inr y"
  shows "\<bar>y - x\<bar> \<le> 1 / 200" and "x = of_int n / 100 \<Longrightarrow> y = x"
proof -
  from assms have y: "y = of_int (round_half_away (x * 100)) / 100"
    by (auto simp: decimal_10_2_def Let_def split: if_splits)
  from round_half_away_near [of "x * 100"] have "\<bar>y * 100 - x * 100\<bar> \<le> 1 / 2" by (simp add: y)
  then show "\<bar>y - x\<bar> \<le> 1 / 200" unfolding abs_le_iff by linarith
  show "y = x" if "x = of_int n / 100"
    using that y by (simp add: round_half_away_of_int)
qed

section \<open>The product handlers\<close>

lemma query_result:
  assumes "query e k stmt d = (r, d')"
  shows "(\<exists>err. r = Inl err \<and> d' = d) \<or> (\<exists>x. r = Inr x \<and> stmt d = Inr (x, d'))"
  using assms by (auto simp: query_def split: if_splits sum.splits)

lemma update_product_result:
  assumes "update_product p t v d = Inr (x, d')"
  shows "order_items d' = order_items d \<and> orders d' = orders d \<and> users d' = users d \<and>
         (\<forall>p' r'. products d' p' = Some r' \<longrightarrow> products d p' \<noteq> Some r' \<longrightarrow>
            stock_quantity r' = stock_quantity v \<and> in_stock r' = in_stock v)"
  using assms
  by (auto simp: update_product_def int4_def Let_def split: option.splits sum.splits if_splits)

lemma insert_product_result:
  assumes "insert_product new_id v d = Inr (x, d')"
  shows "order_items d' = order_items d \<and> orders d' = orders d \<and> users d' = users d \<and>
         (\<forall>p' r'. products d' p' = Some r' \<longrightarrow> products d p' \<noteq> Some r' \<longrightarrow>
            stock_quantity r' = stock_quantity v \<and> in_stock r' = in_stock v)"
  using assms
  by (auto simp: insert_product_def int4_def Let_def split: option.splits sum.splits if_splits)

lemma admin_update_product_frame:
  assumes "admin_update_product e p b d = (out, d')"
  shows "order_items d' = order_items d \<and> orders d' = orders d \<and>
         (\<forall>p' r'. products d' p' = Some r' \<longrightarrow> products d p' \<noteq> Some r' \<longrightarrow>
            in_stock r' = (0 < stock_quantity r'))"
proof (cases "update_validation_error b")
  case (Some msg)
  with assms show ?thesis by (simp add: admin_update_product_def)
next
  case None
  obtain r1 d1 where q1: "query e 0 (select_product p) d = (r1, d1)"
    by (cases "query e 0 (select_product p) d")
  from query_result [OF q1] have d1: "d1 = d" by (auto simp: select_product_def)
  show ?thesis
  proof (cases r1)
    case (Inl err)
    with assms None q1 d1 show ?thesis by (simp add: admin_update_product_def)
  next
    case (Inr found)
    show ?thesis
    proof (cases found)
      case n: None
      with assms None q1 d1 Inr show ?thesis by (simp add: admin_update_product_def)
    next
      case (Some current)
      let ?sq = "case b_stock_quantity b of None \<Rightarrow> stock_quantity current | Some n \<Rightarrow> n"
      from assms None q1 d1 Inr Some obtain v r2 where
        q2: "query e 1 (update_product p (now e) v) d = (r2, d')"
        and v: "stock_quantity v = ?sq" "in_stock v = (0 < ?sq)"
        by (auto simp: admin_update_product_def Let_def split: prod.splits sum.splits option.splits)
      from query_result [OF q2] show ?thesis
      proof
        assume "\<exists>err. r2 = Inl err \<and> d' = d"
        then show ?thesis by auto
      next
        assume "\<exists>x. r2 = Inr x \<and> update_product p (now e) v d = Inr (x, d')"
        then obtain x where "update_product p (now e) v d = Inr (x, d')" by blast
        from update_product_result [OF this] v show ?thesis by simp
      qed
    qed
  qed
qed

lemma admin_create_product_frame:
  assumes "admin_create_product e b d = (out, d')"
  shows "order_items d' = order_items d \<and> orders d' = orders d \<and>
         (\<forall>p' r'. products d' p' = Some r' \<longrightarrow> products d p' \<noteq> Some r' \<longrightarrow>
            in_stock r' = (0 < stock_quantity r'))"
proof (cases "create_validation_error b")
  case (Some msg)
  with assms show ?thesis by (simp add: admin_create_product_def)
next
  case None
  let ?sq = "case b_stock_quantity b of None \<Rightarrow> 0 | Some n \<Rightarrow> n"
  from assms None obtain v r2 where
    q2: "query e 0 (insert_product (product_uuid e) v) d = (r2, d')"
    and v: "stock_quantity v = ?sq" "in_stock v = (0 < ?sq)"
    by (auto simp: admin_create_product_def Let_def split: prod.splits sum.splits)
  from query_result [OF q2] show ?thesis
  proof
    assume "\<exists>err. r2 = Inl err \<and> d' = d"
    then show ?thesis by auto
  next
    assume "\<exists>x. r2 = Inr x \<and> insert_product (product_uuid e) v d = Inr (x, d')"
    then obtain x where "insert_product (product_uuid e) v d = Inr (x, d')" by blast
    from insert_product_result [OF this] v show ?thesis by simp
  qed
qed

lemma admin_delete_product_items:
  "order_items (snd (admin_delete_product e p d)) =
     (if \<not> stmt_fails e 0 \<and> products d p \<noteq> None
      then map (\<lambda>r. if oi_product_id r = Some p then r\<lparr>oi_product_id := None\<rparr> else r)
             (order_items d)
      else order_items d)"
  by (auto simp: admin_delete_product_def query_def delete_product_def split: option.splits)

lemma admin_delete_product_response:
  "fst (admin_delete_product e p d) =
     (if stmt_fails e 0 then Forwarded StoreFault
      else if products d p = None then Responded (404, ErrorBody ''Product not found'')
      else Responded (200, Message ''Product deleted''))"
  by (auto simp: admin_delete_product_def query_def delete_product_def split: option.splits)


lemma decimal_10_2_more:
  "decimal_10_2 (2999 / 100) = Inr (2999 / 100)"
  by code_simp


lemma reprice_changes_the_product:
  "map_option price
     (products (snd (admin_update_product calm ''p1'' (reprice (2999 / 100)) (after_sale (5997 / 100))))
        ''p1'') = Some (2999 / 100)"
  by (simp add: admin_update_product_def update_validation_error_def negative_opt_def query_def
      select_product_def update_product_def decimal_opt_def int4_def Let_def reprice_def
      after_sale_def sneaker_def calm_def decimal_10_2_more)

section \<open>Place Order\<close>

text \<open>
  On a client with nothing open the handler is all-or-nothing, up to the client it gives
  back: when it does not answer 201 the persisted store is the one it started from, when it
  answers 201 the order, its items and the stock changes are persisted together, and
  unless its own \<^verbatim>\<open>ROLLBACK\<close> failed nothing is left open on the client.
\<close>

lemma place_order_on_fresh_client:
  assumes "post_orders e req d = (out, w)"
  shows "((\<forall>err. out \<noteq> Unhandled err) \<longrightarrow> pending w = None) \<and>
         ((\<forall>ord. out \<noteq> Responded (201, OrderPlaced ord)) \<longrightarrow> committed w = d) \<and>
         (\<forall>ord. out = Responded (201, OrderPlaced ord) \<longrightarrow>
            (\<forall>i \<in> set (items req). \<exists>r. products d (productId i) = Some r \<and>
               sum_list (map quantity (filter (\<lambda>j. productId j = productId i) (items req)))
                 \<le> stock_quantity r) \<and>
            users (committed w) = users d \<and>
            orders (committed w) = orders d @ [ord] \<and>
            (\<exists>rows. order_items (committed w) = order_items d @ rows \<and>
               list_all2 (\<lambda>i row. \<exists>nid p. decimal_10_2 (item_price i) = Inr p \<and>
                            row = (order_item_params nid (now e) (o_id ord) i)\<lparr>oi_price := p\<rparr>)
                 (items req) rows) \<and>
            (\<forall>p. products (committed w) p =
               (case products d p of
                  None \<Rightarrow> None
                | Some r \<Rightarrow>
                    Some (if p \<in> productId ` set (items req)
                          then r\<lparr>stock_quantity :=
                                   stock_quantity r -
                                   sum_list (map quantity (filter (\<lambda>i. productId i = p) (items req))),
                                 in_stock :=
                                   (0 < stock_quantity r -
                                      sum_list (map quantity (filter (\<lambda>i. productId i = p) (items req)))),
                                 updated_at := now e\<rparr>
                          else r))))"
proof -
  have clean: "pending (fresh_world d) = None" by (simp add: fresh_world_def)
  from assms have on: "post_orders_on e req (fresh_world d) = (out, w)"
    by (simp add: post_orders_def)
  have open_only: "(\<forall>err. out \<noteq> Unhandled err) \<longrightarrow> pending w = None"
    using post_orders_on_leaves_clean [OF clean on] by blast
  from post_orders_cases [OF assms]
  consider (failed) "committed w = d"
      "(\<exists>err. out = Forwarded err) \<or> (\<exists>err. out = Unhandled err) \<or>
       (\<exists>resp. out = Responded resp \<and> fst resp = 400)"
    | (placed) ord rows where "out = Responded (201, OrderPlaced ord)"
      "list_all2 (\<lambda>i row. \<exists>nid p. decimal_10_2 (item_price i) = Inr p \<and>
                         row = (order_item_params nid (now e) (o_id ord) i)\<lparr>oi_price := p\<rparr>)
             (items req) rows"
      "committed w = d
             \<lparr>products := fold (decrement_row (now e)) (items req) (products d),
              orders := orders d @ [ord],
              order_items := order_items d @ rows\<rparr>"
    by blast
  then show ?thesis
  proof cases
    case failed
    with open_only show ?thesis by auto
  next
    case placed
    from placed(3) have "\<forall>p. products (committed w) p =
        fold (decrement_row (now e)) (items req) (products d) p" by simp
    moreover have "\<forall>i \<in> set (items req). \<exists>r. products d (productId i) = Some r \<and>
        sum_list (map quantity (filter (\<lambda>j. productId j = productId i) (items req)))
          \<le> stock_quantity r"
      using placed_order_had_stock [OF assms [unfolded placed(1)]] by blast
    ultimately show ?thesis using placed open_only by (auto simp: fold_decrement_row)
  qed
qed

lemma decimal_10_2_too_large:
  "decimal_10_2 100000000 = Inl NumericValueOutOfRange"
  by code_simp

text \<open>
  C4, amended. The boundary of the stock check. A valid request with a single item whose
  quantity equals the product's stock is answered 201, and afterwards the product has
  stock 0 and \<open>in_stock = False\<close>, provided that the total and the price of the request
  fit the columns \<^verbatim>\<open>DECIMAL(10,2)\<close> they are stored in and that the store accepts every
  statement (no fault in the six statements, the user exists, the generated ids are new);
  the stock is a value of its \<^verbatim>\<open>INTEGER\<close> column. Validation checks neither amount
  from above; the theorem after the next one shows a request for exactly the stock that
  is not placed.
\<close>

theorem order_for_exactly_the_stock:
  assumes "items req = [item]" and "productId item = p" and "products d p = Some r"
    and "quantity item = stock_quantity r"
    and "validation_error req = None"
    and "stock_quantity r \<le> 2147483647"
    and "\<not> connect_fails e" and "\<forall>k<6. \<not> stmt_fails e k"
    and "userId req \<in> users d"
    and "order_uuid e \<notin> set (map o_id (orders d))"
    and "item_uuid e 0 \<notin> set (map oi_id (order_items d))"
    and "decimal_10_2 (order_total req) = Inr amount'"
    and "decimal_10_2 (item_price item) = Inr price'"
  shows "\<exists>ord w. post_orders e req d = (Responded (201, OrderPlaced ord), w) \<and>
           products (committed w) p =
             Some (r\<lparr>stock_quantity := 0, in_stock := False, updated_at := now e\<rparr>)"
proof -
  from assms(8) have nf: "\<not> stmt_fails e 0" "\<not> stmt_fails e (Suc 0)"
    "\<not> stmt_fails e (Suc (Suc 0))" "\<not> stmt_fails e (Suc (Suc (Suc 0)))"
    "\<not> stmt_fails e (Suc (Suc (Suc (Suc 0))))" "\<not> stmt_fails e (Suc (Suc (Suc (Suc (Suc 0)))))"
    by (simp_all add: numeral_eq_Suc)
  from assms(1,5) have "1 \<le> quantity item"
    by (auto simp: validation_error_def split: if_splits)
  with assms nf show ?thesis
    by (simp add: post_orders_def post_orders_on_def try_block_def finally_block_def transaction_def
        getClient_def client_release_def client_query_def client_begin_def client_commit_def
        fresh_world_def select_for_update_def update_stock_minus_def insert_order_def
        insert_order_item_def order_item_params_def int4_def Let_def)
qed

theorem order_for_exactly_the_stock_witness:
  "\<exists>ord w. post_orders calm (buy 3 (5997 / 100)) shop = (Responded (201, OrderPlaced ord), w) \<and>
           products (committed w) ''p1'' =
             Some (sneaker\<lparr>stock_quantity := 0, in_stock := False, updated_at := 5\<rparr>)"
proof -
  have "\<forall>k<6. \<not> stmt_fails calm k" by (simp add: calm_def)
  from order_for_exactly_the_stock [of "buy 3 (5997 / 100)" "hd (items (buy 3 (5997 / 100)))"
      "''p1''" shop sneaker calm "5997 / 100" "1999 / 100", OF _ _ _ _ _ _ _ this]
  show ?thesis
    by (simp add: buy_def shop_def sneaker_def calm_def validation_error_def decimal_10_2_examples)
qed

text \<open>
  A request for exactly the stock, three pairs, with the total 100000000: validation
  lets it pass, the \<^verbatim>\<open>INSERT\<close> of the order raises a numeric overflow, and the request
  ends with that error and the stock still at 3.
\<close>

theorem order_for_exactly_the_stock_counterexample:
  "items (buy 3 100000000) =
     [\<lparr>productId = ''p1'', quantity = stock_quantity sneaker, item_price = 1999 / 100,
       item_size = None, product_name = Some ''Sneaker''\<rparr>] \<and>
   products shop ''p1'' = Some sneaker \<and>
   validation_error (buy 3 100000000) = None \<and>
   post_orders calm (buy 3 100000000) shop =
     (Forwarded NumericValueOutOfRange,
      \<lparr>committed = shop, pending = None, sent = 5, acquired = 1, released = 1\<rparr>)"
  by (simp add: run_defs calm_def buy_def shop_def sneaker_def decimal_10_2_too_large)
text \<open>
  C8, amended. The persisted total of a placed order is the total that the handler sends
  to the store, coerced to \<^verbatim>\<open>DECIMAL(10,2)\<close>. The total sent is \<open>order_total req\<close>,
  the decimal number that the text \<^verbatim>\<open>String(total)\<close> of the request's number denotes;
  it is not the text of the field in the request body, which JavaScript has rounded to a
  floating-point number before the handler runs. The persisted total is determined by the
  total sent alone (the items play no part), it differs from it by at most 0.005, and it
  equals it when the total sent has at most two fractional digits.
\<close>

theorem order_total_is_rounded_client_total:
  assumes "post_orders e req d = (Responded (201, OrderPlaced ord), w)"
  shows "decimal_10_2 (order_total req) = Inr (o_total ord) \<and>
         orders (committed w) = orders d @ [ord] \<and>
         \<bar>o_total ord - order_total req\<bar> \<le> 1 / 200 \<and>
         ((\<exists>n::int. order_total req = of_int n / 100) \<longrightarrow> o_total ord = order_total req)"
proof -
  from post_orders_cases [OF assms] obtain amount' where
    "decimal_10_2 (order_total req) = Inr amount'" "o_total ord = amount'"
    "orders (committed w) = orders d @ [ord]"
    by auto
  moreover from this decimal_10_2_near(1) [of "order_total req" amount']
  have "\<bar>o_total ord - order_total req\<bar> \<le> 1 / 200" by simp
  moreover have "o_total ord = order_total req" if "\<exists>n::int. order_total req = of_int n / 100"
  proof -
    from that obtain n :: int where "order_total req = of_int n / 100" ..
    from decimal_10_2_near(2) [OF \<open>decimal_10_2 (order_total req) = Inr amount'\<close> this]
      \<open>o_total ord = amount'\<close> show ?thesis by simp
  qed
  ultimately show ?thesis by simp
qed

theorem order_total_is_rounded_client_total_witness:
  "\<exists>ord w. post_orders calm (buy 3 (5997 / 100)) shop = (Responded (201, OrderPlaced ord), w) \<and>
     decimal_10_2 (order_total (buy 3 (5997 / 100))) = Inr (o_total ord) \<and>
     orders (committed w) = orders shop @ [ord] \<and>
     \<bar>o_total ord - order_total (buy 3 (5997 / 100))\<bar> \<le> 1 / 200 \<and>
     o_total ord = order_total (buy 3 (5997 / 100))"
proof -
  have run: "post_orders calm (buy 3 (5997 / 100)) shop =
     (Responded (201, OrderPlaced (receipt (5997 / 100))),
      \<lparr>committed = after_sale (5997 / 100), pending = None, sent = 6, acquired = 1, released = 1\<rparr>)"
    by (simp add: run_buy_3 [OF decimal_10_2_examples(3)])
  note t = order_total_is_rounded_client_total [OF run]
  have "\<exists>n::int. order_total (buy 3 (5997 / 100)) = of_int n / 100"
    by (rule exI [of _ 5997]) (simp add: buy_def)
  with t run show ?thesis by blast
qed

text \<open>
  The claim as stated, that the stored total equals the field exactly, fails for a total
  of 59.999: the order is placed and its stored total is 60.
\<close>

theorem order_total_rounded_counterexample:
  "post_orders calm (buy 3 (59999 / 1000)) shop =
     (Responded (201, OrderPlaced (receipt 60)),
      \<lparr>committed = after_sale 60, pending = None, sent = 6, acquired = 1, released = 1\<rparr>) \<and>
   orders (after_sale 60) = [receipt 60] \<and>
   o_total (receipt 60) = 60 \<and>
   order_total (buy 3 (59999 / 1000)) = 59999 / 1000 \<and>
   o_total (receipt 60) \<noteq> order_total (buy 3 (59999 / 1000))"
  by (simp add: run_buy_3 [OF decimal_10_2_examples(4)] after_sale_def receipt_def)
     (simp add: buy_def)

text \<open>
  C9. The client is given back on every path: at the end of every run of the handler the
  number of releases equals the number of clients acquired, which is one exactly when the
  request passed validation and the pool handed out a client.
\<close>

theorem client_released_on_every_path:
  "post_orders e req d = (out, w) \<Longrightarrow>
     released w = acquired w \<and>
     acquired w = (if validation_error req = None \<and> \<not> connect_fails e then 1 else 0)"
  using post_orders_cases [of e req d out w] by blast

theorem client_released_on_every_path_witness:
  "released (snd (post_orders calm (buy 3 (5997 / 100)) shop)) = 1 \<and>
   released (snd (post_orders calm (buy 4 (5997 / 100)) shop)) = 1 \<and>
   released (snd (post_orders flaky (buy 3 (5997 / 100)) shop)) = 1"
proof -
  have v: "validation_error (buy 3 (5997 / 100)) = None" "validation_error (buy 4 (5997 / 100)) = None"
    by (simp_all add: validation_error_def buy_def)
  have c: "\<not> connect_fails calm" "\<not> connect_fails flaky" by (simp_all add: calm_def flaky_def)
  let ?a = "post_orders calm (buy 3 (5997 / 100)) shop"
    and ?b = "post_orders calm (buy 4 (5997 / 100)) shop"
    and ?c = "post_orders flaky (buy 3 (5997 / 100)) shop"
  have "?a = (fst ?a, snd ?a)" "?b = (fst ?b, snd ?b)" "?c = (fst ?c, snd ?c)" by simp_all
  note r = this [THEN client_released_on_every_path]
  from r v c show ?thesis by simp
qed

section \<open>Order items after a product changes\<close>

text \<open>
  C7, amended. \<^verbatim>\<open>PATCH /products/:productId\<close> leaves every row of
  \<open>order_items\<close> as it is. \<^verbatim>\<open>DELETE /products/:productId\<close>, when it deletes the
  product (the statement does not fail and the product exists), sets \<open>product_id\<close> to
  NULL in exactly the rows that referred to the deleted product and leaves every other
  column and every other row as it is; when it deletes nothing, every row stays as it is.
  In both operations the name and the price captured at purchase time stay.
\<close>

theorem order_items_after_product_edit:
  "order_items (snd (admin_update_product e p b d)) = order_items d \<and>
   order_items (snd (admin_delete_product e' p d)) =
     (if \<not> stmt_fails e' 0 \<and> products d p \<noteq> None
      then map (\<lambda>r. if oi_product_id r = Some p then r\<lparr>oi_product_id := None\<rparr> else r)
             (order_items d)
      else order_items d) \<and>
   map oi_product_name (order_items (snd (admin_delete_product e' p d))) =
     map oi_product_name (order_items d) \<and>
   map oi_price (order_items (snd (admin_delete_product e' p d))) = map oi_price (order_items d)"
proof -
  have "admin_update_product e p b d =
      (fst (admin_update_product e p b d), snd (admin_update_product e p b d))" by simp
  from admin_update_product_frame [OF this]
  have 1: "order_items (snd (admin_update_product e p b d)) = order_items d" by simp
  note 2 = admin_delete_product_items [of e' p d]
  have 3: "map oi_product_name (order_items (snd (admin_delete_product e' p d))) =
      map oi_product_name (order_items d)"
    unfolding 2 by auto
  have 4: "map oi_price (order_items (snd (admin_delete_product e' p d))) =
      map oi_price (order_items d)"
    unfolding 2 by auto
  from 1 2 3 4 show ?thesis by blast
qed

theorem order_items_after_product_edit_witness:
  "\<not> stmt_fails calm 0 \<and> products (after_sale (5997 / 100)) ''p1'' \<noteq> None \<and>
   order_items (snd (admin_update_product calm ''p1'' (reprice (2999 / 100)) (after_sale (5997 / 100))))
     = [sold_item] \<and>
   order_items (snd (admin_delete_product calm ''p1'' (after_sale (5997 / 100))))
     = [sold_item\<lparr>oi_product_id := None\<rparr>] \<and>
   order_items (snd (admin_delete_product calm ''p2'' (after_sale (5997 / 100)))) = [sold_item] \<and>
   map oi_product_name
     (order_items (snd (admin_delete_product calm ''p1'' (after_sale (5997 / 100))))) = [''Sneaker''] \<and>
   map oi_price
     (order_items (snd (admin_delete_product calm ''p1'' (after_sale (5997 / 100))))) = [1999 / 100]"
proof -
  have env: "\<not> stmt_fails calm 0" by (simp add: calm_def)
  have store: "products (after_sale (5997 / 100)) ''p1'' \<noteq> None"
    "products (after_sale (5997 / 100)) ''p2'' = None"
    "order_items (after_sale (5997 / 100)) = [sold_item]"
    by (simp_all add: after_sale_def)
  have row: "oi_product_id sold_item = Some ''p1''" "oi_product_name sold_item = ''Sneaker''"
    "oi_price sold_item = 1999 / 100"
    by (simp_all add: sold_item_def)
  from order_items_after_product_edit
          [of calm "''p1''" "reprice (2999 / 100)" "after_sale (5997 / 100)" calm]
       order_items_after_product_edit
          [of calm "''p2''" "reprice (2999 / 100)" "after_sale (5997 / 100)" calm]
       env store row
  show ?thesis by simp
qed

text \<open>
  The claim as stated, that the rows are unchanged, fails for a deletion: the row of the
  sale loses its product reference.
\<close>

theorem product_deletion_changes_order_item_counterexample:
  "order_items (after_sale (5997 / 100)) = [sold_item] \<and>
   order_items (snd (admin_delete_product calm ''p1'' (after_sale (5997 / 100)))) =
     [sold_item\<lparr>oi_product_id := None\<rparr>] \<and>
   sold_item\<lparr>oi_product_id := None\<rparr> \<noteq> sold_item"
  by (simp add: admin_delete_product_def query_def delete_product_def after_sale_def
      sold_item_def calm_def)


section \<open>The stock functions\<close>

text \<open>
  C5, amended. For an existing product, \<open>decrement_stock\<close> returns false and leaves the
  store as it is when the stock is less than the quantity; otherwise it returns true with
  the stock reduced by the quantity and \<open>in_stock\<close> recomputed, provided the new stock
  fits the \<^verbatim>\<open>INTEGER\<close> column; when it does not (possible only for a negative quantity)
  the update raises 22003.
\<close>

theorem decrement_stock_soft_failure:
  "products d p = Some r \<Longrightarrow>
     (stock_quantity r < q \<longrightarrow> decrement_stock t p q d = Inr (False, d)) \<and>
     (q \<le> stock_quantity r \<and> stock_quantity r - q \<le> 2147483647 \<longrightarrow>
        decrement_stock t p q d =
          Inr (True, d\<lparr>products := (products d)(p \<mapsto>
                 r\<lparr>stock_quantity := stock_quantity r - q,
                   in_stock := (0 < stock_quantity r - q), updated_at := t\<rparr>)\<rparr>)) \<and>
     (q \<le> stock_quantity r \<and> 2147483647 < stock_quantity r - q \<longrightarrow>
        decrement_stock t p q d = Inl NumericValueOutOfRange)"
  by (simp add: decrement_stock_def update_stock_minus_def int4_def)

theorem decrement_stock_soft_failure_witness:
  "products shop ''p1'' = Some sneaker \<and>
   decrement_stock 5 ''p1'' 4 shop = Inr (False, shop) \<and>
   decrement_stock 5 ''p1'' 3 shop =
     Inr (True, shop\<lparr>products := [''p1'' \<mapsto>
            sneaker\<lparr>stock_quantity := 0, in_stock := False, updated_at := 5\<rparr>]\<rparr>)"
  using decrement_stock_soft_failure [of shop "''p1''" sneaker 4 5]
    decrement_stock_soft_failure [of shop "''p1''" sneaker 3 5]
  by (simp add: shop_def sneaker_def)

text \<open>
  The claim as stated fails where the stock is not less than the quantity and the
  difference leaves the column type: the call raises instead of returning true.
\<close>

theorem decrement_stock_overflow_counterexample:
  "products shop ''p1'' = Some sneaker \<and> \<not> stock_quantity sneaker < - 2147483647 \<and>
   decrement_stock 5 ''p1'' (- 2147483647) shop = Inl NumericValueOutOfRange"
  by (simp add: decrement_stock_def update_stock_minus_def int4_def shop_def sneaker_def)

text \<open>
  C10. For a product id that is not in the table, \<open>decrement_stock\<close> returns false,
  raises nothing and leaves the whole store as it is, whatever the quantity.
\<close>

theorem decrement_stock_unknown_product:
  "products d p = None \<Longrightarrow> decrement_stock t p q d = Inr (False, d)"
  by (simp add: decrement_stock_def)

theorem decrement_stock_unknown_product_witness:
  "products shop ''p9'' = None \<and> decrement_stock 5 ''p9'' 1 shop = Inr (False, shop)"
  using decrement_stock_unknown_product [of shop "''p9''" 5 1] by (simp add: shop_def)

text \<open>
  C6. \<open>restore_stock\<close> does not recompute \<open>in_stock\<close>, it sets it. Called with quantity 0
  on the sold-out sneaker it leaves the stock at 0 and marks the product as in stock.
\<close>

theorem restore_stock_zero_on_sold_out:
  "restore_stock 5 ''p1'' 0 sold_out =
     Inr (sold_out\<lparr>products := [''p1'' \<mapsto>
            sneaker\<lparr>stock_quantity := 0, in_stock := True, updated_at := 5\<rparr>]\<rparr>)"
  by (simp add: restore_stock_def int4_def sold_out_def shop_def sneaker_def)

section \<open>The in-stock flag\<close>

text \<open>
  Every row that Place Order, \<open>decrement_stock\<close>, product creation or product update
  writes has \<open>in_stock = (0 < stock_quantity)\<close> (\<open>admin_update_product_frame\<close> and
  \<open>admin_create_product_frame\<close> above, and the two lemmas here).
\<close>

lemma decrement_stock_in_stock:
  assumes "decrement_stock t p q d = Inr (b, d')" and "products d' p' = Some r'"
    and "products d p' \<noteq> Some r'"
  shows "in_stock r' = (0 < stock_quantity r')"
  using assms
  by (auto simp: decrement_stock_def update_stock_minus_def int4_def
      split: option.splits if_splits sum.splits)

lemma post_orders_in_stock:
  assumes "post_orders e req d = (out, w)" and "products (committed w) p = Some r'"
    and "products d p \<noteq> Some r'"
  shows "in_stock r' = (0 < stock_quantity r')"
proof -
  from post_orders_cases [OF assms(1)] assms(2,3)
  have "products (committed w) p = fold (decrement_row (now e)) (items req) (products d) p"
    by auto
  with assms(2,3) show ?thesis
    by (auto simp: fold_decrement_row split: option.splits if_splits)
qed

text \<open>
  C3. The fifth writer, \<open>restore_stock\<close>, breaks the invariant: the sold-out sneaker
  satisfies it, and after \<open>restore_stock\<close> with quantity 0 it does not.
\<close>

theorem restore_stock_breaks_in_stock_rule:
  "map_option (\<lambda>r. in_stock r = (0 < stock_quantity r)) (products sold_out ''p1'') = Some True \<and>
   (case restore_stock 5 ''p1'' 0 sold_out of
      Inl err \<Rightarrow> None
    | Inr d' \<Rightarrow> map_option (\<lambda>r. in_stock r = (0 < stock_quantity r)) (products d' ''p1''))
     = Some False"
  by (simp add: restore_stock_def int4_def sold_out_def shop_def sneaker_def)

section \<open>Two orders one after the other\<close>

text \<open>
  An order that is placed found, for each of its products, a stock that covers everything
  the order asks of that product. So when two orders run one after the other and together
  ask for more of a product than there is, at most one of them is placed, and a stock
  that was not negative stays so.
\<close>

lemma stock_stays_nonnegative:
  assumes run: "post_orders e req d = (out, w)" and r: "products d p = Some r"
    and nonneg: "0 \<le> stock_quantity r"
  shows "\<exists>r'. products (committed w) p = Some r' \<and> 0 \<le> stock_quantity r'"
proof (cases "\<exists>ord. out = Responded (201, OrderPlaced ord)")
  case False
  with post_orders_cases [OF run] have "committed w = d" by auto
  with r nonneg show ?thesis by simp
next
  case True
  then obtain ord where out: "out = Responded (201, OrderPlaced ord)" ..
  from post_orders_cases [OF run] out
  have c: "\<forall>p. products (committed w) p = fold (decrement_row (now e)) (items req) (products d) p"
    by auto
  show ?thesis
  proof (cases "p \<in> productId ` set (items req)")
    case True
    from placed_order_had_stock [OF run [unfolded out] True] r
    have "sum_list (map quantity (filter (\<lambda>i. productId i = p) (items req))) \<le> stock_quantity r"
      by simp
    with c r True show ?thesis by (simp add: fold_decrement_row)
  next
    case False
    with c r nonneg show ?thesis by (simp add: fold_decrement_row)
  qed
qed

lemma two_orders_in_a_row:
  assumes first: "post_orders e1 req1 d = (out1, w1)"
    and second: "post_orders e2 req2 (committed w1) = (out2, w2)"
    and r: "products d p = Some r"
    and p1: "p \<in> productId ` set (items req1)" and p2: "p \<in> productId ` set (items req2)"
    and over: "stock_quantity r <
        sum_list (map quantity (filter (\<lambda>i. productId i = p) (items req1))) +
        sum_list (map quantity (filter (\<lambda>i. productId i = p) (items req2)))"
  shows "\<not> ((\<exists>ord. out1 = Responded (201, OrderPlaced ord)) \<and>
            (\<exists>ord. out2 = Responded (201, OrderPlaced ord)))"
proof
  assume "(\<exists>ord. out1 = Responded (201, OrderPlaced ord)) \<and>
          (\<exists>ord. out2 = Responded (201, OrderPlaced ord))"
  then obtain o1 o2 where o1: "out1 = Responded (201, OrderPlaced o1)"
    and o2: "out2 = Responded (201, OrderPlaced o2)" by blast
  from post_orders_cases [OF first] o1
  have "products (committed w1) p = fold (decrement_row (now e1)) (items req1) (products d) p"
    by auto
  with r p1 obtain r1 where r1: "products (committed w1) p = Some r1"
    and s1: "stock_quantity r1 = stock_quantity r -
        sum_list (map quantity (filter (\<lambda>i. productId i = p) (items req1)))"
    by (simp add: fold_decrement_row)
  from placed_order_had_stock [OF second [unfolded o2] p2] r1
  have "sum_list (map quantity (filter (\<lambda>i. productId i = p) (items req2))) \<le> stock_quantity r1"
    by simp
  with s1 over show False by simp
qed

section \<open>Two orders at once\<close>

lemma both_ok:
  assumes "products d p = Some r" "0 \<le> stock_quantity r"
  shows "no_oversell p (stock_quantity r) (both d e1 req1 e2 req2)"
  using assms by (simp add: no_oversell_def session_ok_def both_def arrive_def)

lemma no_oversell_iff:
  "no_oversell p s c =
     (session_ok p i c \<and> session_ok p (\<not> i) c \<and>
      (\<exists>r. products (store c) p = Some r \<and> 0 \<le> stock_quantity r \<and>
         stock_quantity r
           + (if placed (pc (sess c i)) then asked p (items (request (sess c i))) else 0)
           + (if placed (pc (sess c (\<not> i))) then asked p (items (request (sess c (\<not> i)))) else 0)
         = s))"
  by (cases i) (auto simp: no_oversell_def)

lemma goto_fields [simp]:
  "store (goto i s c) = store c" "lock (goto i s c) = lock c"
  "sess (goto i s c) = (sess c)(i := s)"
  by (simp_all add: goto_def)

lemma finish_fields [simp]:
  "store (finish i out c) = store c" "lock (finish i out c) = release_locks i (lock c)"
  "sess (finish i out c) j =
     (if j = i then (sess c i)\<lparr>pc := Done out, written := Map.empty, ins_orders := [],
                               ins_items := []\<rparr> else sess c j)"
  by (simp_all add: finish_def)

lemma view_products:
  "products (view d s) p = (case written s p of None \<Rightarrow> products d p | Some r \<Rightarrow> Some r)"
  by (simp add: view_def map_add_def)

lemma progress_cong:
  "sess c' j = sess c j \<Longrightarrow> lock c' p = lock c p \<Longrightarrow>
   products (store c') p = products (store c) p \<Longrightarrow>
   progress p j c' past = progress p j c past"
  by (simp add: progress_def)

lemma session_ok_cong:
  "sess c' j = sess c j \<Longrightarrow> lock c' p = lock c p \<Longrightarrow>
   products (store c') p = products (store c) p \<Longrightarrow>
   session_ok p j c' = session_ok p j c"
  by (simp add: session_ok_def progress_cong [of c' j c p] split: pc.splits)

lemma progress_unlocked:
  "progress p j c past \<Longrightarrow> lock c p \<noteq> Some j \<Longrightarrow> sess c' j = sess c j \<Longrightarrow>
   progress p j c' past"
  by (auto simp: progress_def split: if_splits)

lemma session_ok_unlocked:
  "session_ok p j c \<Longrightarrow> lock c p \<noteq> Some j \<Longrightarrow> sess c' j = sess c j \<Longrightarrow>
   session_ok p j c'"
  unfolding session_ok_def
  by (cases "pc (sess c j)") (auto intro: progress_unlocked)

lemma session_ok_done:
  "(\<exists>x. pc (sess c' j) = Done x) \<or> (\<exists>x. pc (sess c' j) = AtCatch x) \<or>
   (\<exists>x. pc (sess c' j) = AtRefuse x) \<Longrightarrow> session_ok p j c'"
  by (auto simp: session_ok_def)


lemma asked_simps [simp]:
  "asked p [] = 0"
  "asked p (item # rest) = (if productId item = p then quantity item else 0) + asked p rest"
  "asked p (xs @ ys) = asked p xs + asked p ys"
  by (simp_all add: asked_def)

lemma asked_absent: "p \<notin> productId ` set its \<Longrightarrow> asked p its = 0"
  by (induction its) auto

lemma ok_goto:
  assumes inv: "no_oversell p s c"
    and self: "session_ok p i (goto i s' c)"
    and np: "\<not> placed (pc s')" "\<not> placed (pc (sess c i))"
  shows "no_oversell p s (goto i s' c)"
proof -
  from inv have other: "session_ok p (\<not> i) c"
    and stock: "\<exists>r. products (store c) p = Some r \<and> 0 \<le> stock_quantity r \<and>
         stock_quantity r
           + (if placed (pc (sess c i)) then asked p (items (request (sess c i))) else 0)
           + (if placed (pc (sess c (\<not> i))) then asked p (items (request (sess c (\<not> i)))) else 0)
         = s"
    unfolding no_oversell_iff [of p s c i] by simp_all
  have "session_ok p (\<not> i) (goto i s' c) = session_ok p (\<not> i) c"
    by (rule session_ok_cong) simp_all
  with other self stock np show ?thesis
    unfolding no_oversell_iff [of p s "goto i s' c" i] by auto
qed

lemma ok_finish:
  assumes inv: "no_oversell p s c"
    and np: "\<not> placed (Done out)" "\<not> placed (pc (sess c i))"
  shows "no_oversell p s (finish i out c)"
proof -
  from inv have other: "session_ok p (\<not> i) c"
    and stock: "\<exists>r. products (store c) p = Some r \<and> 0 \<le> stock_quantity r \<and>
         stock_quantity r
           + (if placed (pc (sess c i)) then asked p (items (request (sess c i))) else 0)
           + (if placed (pc (sess c (\<not> i))) then asked p (items (request (sess c (\<not> i)))) else 0)
         = s"
    unfolding no_oversell_iff [of p s c i] by simp_all
  have 1: "session_ok p i (finish i out c)"
    by (rule session_ok_done) simp
  have 2: "session_ok p (\<not> i) (finish i out c)"
  proof (cases "lock c p = Some (\<not> i)")
    case True
    have "session_ok p (\<not> i) (finish i out c) = session_ok p (\<not> i) c"
      by (rule session_ok_cong) (use True in \<open>simp_all add: release_locks_def\<close>)
    with other show ?thesis by simp
  next
    case False
    show ?thesis by (rule session_ok_unlocked [OF other False]) simp
  qed
  from 1 2 stock np show ?thesis
    unfolding no_oversell_iff [of p s "finish i out c" i] by auto
qed

lemma ok_lock:
  assumes inv: "no_oversell p s c"
    and free: "lock c p' \<noteq> Some (\<not> i)"
    and self: "session_ok p i (goto i s' (c\<lparr>lock := (lock c)(p' \<mapsto> i)\<rparr>))"
    and np: "\<not> placed (pc s')" "\<not> placed (pc (sess c i))"
  shows "no_oversell p s (goto i s' (c\<lparr>lock := (lock c)(p' \<mapsto> i)\<rparr>))"
    (is "no_oversell p s ?c'")
proof -
  from inv have other: "session_ok p (\<not> i) c"
    and stock: "\<exists>r. products (store c) p = Some r \<and> 0 \<le> stock_quantity r \<and>
         stock_quantity r
           + (if placed (pc (sess c i)) then asked p (items (request (sess c i))) else 0)
           + (if placed (pc (sess c (\<not> i))) then asked p (items (request (sess c (\<not> i)))) else 0)
         = s"
    unfolding no_oversell_iff [of p s c i] by simp_all
  have "session_ok p (\<not> i) ?c'"
  proof (cases "p' = p")
    case True
    with free have "lock c p \<noteq> Some (\<not> i)" by simp
    then show ?thesis by (rule session_ok_unlocked [OF other]) simp
  next
    case False
    have "session_ok p (\<not> i) ?c' = session_ok p (\<not> i) c"
      by (rule session_ok_cong) (use False in simp_all)
    with other show ?thesis by simp
  qed
  with self stock np show ?thesis
    unfolding no_oversell_iff [of p s ?c' i] by auto
qed

lemma ok_commit:
  assumes inv: "no_oversell p s c"
    and at: "pc (sess c i) = AtInsertItem order k its"
  shows "no_oversell p s
           (finish i (Responded (201, OrderPlaced order)) (c\<lparr>store := view (store c) (sess c i)\<rparr>))"
    (is "no_oversell p s ?c'")
proof -
  let ?its = "items (request (sess c i))"
  from inv have self: "session_ok p i c"
    and other: "session_ok p (\<not> i) c"
    and stock: "\<exists>r. products (store c) p = Some r \<and> 0 \<le> stock_quantity r \<and>
         stock_quantity r
           + (if placed (pc (sess c i)) then asked p (items (request (sess c i))) else 0)
           + (if placed (pc (sess c (\<not> i))) then asked p (items (request (sess c (\<not> i)))) else 0)
         = s"
    unfolding no_oversell_iff [of p s c i] by simp_all
  from self at have prog: "progress p i c ?its" by (simp add: session_ok_def)
  from stock at obtain r where r: "products (store c) p = Some r" "0 \<le> stock_quantity r"
    "stock_quantity r
       + (if placed (pc (sess c (\<not> i))) then asked p (items (request (sess c (\<not> i)))) else 0) = s"
    by auto
  have 1: "session_ok p i ?c'" by (rule session_ok_done) simp
  have 2: "session_ok p (\<not> i) ?c'"
  proof (cases "lock c p = Some (\<not> i)")
    case True
    with prog have "written (sess c i) p = None" by (auto simp: progress_def split: if_splits)
    then have "products (store ?c') p = products (store c) p" by (simp add: view_products)
    then have "session_ok p (\<not> i) ?c' = session_ok p (\<not> i) c"
      by (rule session_ok_cong [rotated 2]) (use True in \<open>simp_all add: release_locks_def\<close>)
    with other show ?thesis by simp
  next
    case False
    show ?thesis by (rule session_ok_unlocked [OF other False]) simp
  qed
  have 3: "\<exists>r'. products (store ?c') p = Some r' \<and> 0 \<le> stock_quantity r' \<and>
             stock_quantity r' + asked p ?its = stock_quantity r"
  proof (cases "p \<in> productId ` set ?its")
    case True
    with prog r show ?thesis by (auto simp: progress_def view_products)
  next
    case False
    with prog r show ?thesis by (auto simp: progress_def view_products asked_absent)
  qed
  with r(3) have "\<exists>r. products (store ?c') p = Some r \<and> 0 \<le> stock_quantity r \<and>
         stock_quantity r
           + (if placed (pc (sess ?c' i)) then asked p (items (request (sess ?c' i))) else 0)
           + (if placed (pc (sess ?c' (\<not> i))) then asked p (items (request (sess ?c' (\<not> i)))) else 0)
         = s"
    by auto
  with 1 2 show ?thesis unfolding no_oversell_iff [of p s ?c' i] by simp
qed


lemma sstep_ok:
  assumes inv: "no_oversell p s c"
  shows "no_oversell p s (sstep f i c)"
proof -
  let ?s = "sess c i"
  from inv have self: "session_ok p i c"
    and stock: "\<exists>r. products (store c) p = Some r \<and> 0 \<le> stock_quantity r"
    unfolding no_oversell_iff [of p s c i] by auto
  from stock obtain r where r: "products (store c) p = Some r" by blast
  have caught: "no_oversell p s (goto i (?s\<lparr>pc := AtCatch err\<rparr>) c)"
    if "\<not> placed (pc ?s)" for err
    by (rule ok_goto [OF inv _ _ that]) (auto intro: session_ok_done)
  show ?thesis
  proof (cases "pc ?s")
    case AtStart
    have "no_oversell p s (goto i (?s\<lparr>pc := AtBegin\<rparr>) c)"
      by (rule ok_goto [OF inv]) (use self AtStart in \<open>simp_all add: session_ok_def\<close>)
    with AtStart ok_finish [OF inv, of _ i] show ?thesis
      by (simp add: sstep_def Let_def split: option.splits)
  next
    case AtBegin
    have "no_oversell p s (goto i (?s\<lparr>pc := AtSelect (items (request ?s))\<rparr>) c)"
      by (rule ok_goto [OF inv])
        (use self AtBegin in \<open>auto simp: session_ok_def progress_def\<close>)
    with AtBegin caught show ?thesis by (simp add: sstep_def Let_def)
  next
    case (AtSelect its)
    with self obtain past where past: "items (request ?s) = past @ its" "progress p i c past"
      by (auto simp: session_ok_def)
    show ?thesis
    proof (cases its)
      case Nil
      have "no_oversell p s
          (goto i (?s\<lparr>pc := AtInsertItem order 0 (items (request ?s)), ins_orders := xs\<rparr>) c)"
        for order xs
        by (rule ok_goto [OF inv])
          (use past Nil AtSelect in \<open>auto simp: session_ok_def progress_def\<close>)
      with AtSelect Nil caught show ?thesis
        by (simp add: sstep_def Let_def split: sum.splits prod.splits)
    next
      case (Cons item rest)
      have refused: "no_oversell p s (goto i (?s\<lparr>pc := AtRefuse msg\<rparr>) c)" for msg
        by (rule ok_goto [OF inv]) (use AtSelect in \<open>auto intro: session_ok_done\<close>)
      have refused_locked: "no_oversell p s
          (goto i (?s\<lparr>pc := AtRefuse msg\<rparr>) (c\<lparr>lock := (lock c)(productId item \<mapsto> i)\<rparr>))"
        if "lock c (productId item) \<noteq> Some (\<not> i)" for msg
        by (rule ok_lock [OF inv that]) (use AtSelect in \<open>auto intro: session_ok_done\<close>)
      have updating: "no_oversell p s
          (goto i (?s\<lparr>pc := AtUpdate (item # rest)\<rparr>) (c\<lparr>lock := (lock c)(productId item \<mapsto> i)\<rparr>))"
        if free: "lock c (productId item) \<noteq> Some (\<not> i)"
          and seen: "products (view (store c) ?s) (productId item) = Some product"
          and enough: "\<not> stock_quantity product < quantity item"
        for product
      proof (rule ok_lock [OF inv free])
        have "progress p i (goto i (?s\<lparr>pc := AtUpdate (item # rest)\<rparr>)
                (c\<lparr>lock := (lock c)(productId item \<mapsto> i)\<rparr>)) past"
          using past(2) by (auto simp: progress_def)
        moreover have "\<exists>r. products (store c) p = Some r \<and>
            asked p past + quantity item \<le> stock_quantity r" if "productId item = p"
          using past(2) seen enough that r
          by (auto simp: progress_def view_products asked_absent split: if_splits)
        ultimately show "session_ok p i (goto i (?s\<lparr>pc := AtUpdate (item # rest)\<rparr>)
            (c\<lparr>lock := (lock c)(productId item \<mapsto> i)\<rparr>))"
          using past(1) Cons by (auto simp: session_ok_def)
      qed (use AtSelect in simp_all)
      from AtSelect Cons caught refused refused_locked updating inv show ?thesis
        by (auto simp: sstep_def Let_def select_for_update_def split: option.splits)
    qed
  next
    case (AtUpdate its)
    with self obtain past item rest where its: "its = item # rest"
      and past: "items (request ?s) = past @ item # rest" "progress p i c past"
      and mine: "productId item = p \<Longrightarrow> lock c p = Some i \<and>
          (\<exists>r. products (store c) p = Some r \<and> asked p past + quantity item \<le> stock_quantity r)"
      by (auto simp: session_ok_def)
    have next_item: "no_oversell p s
        (goto i (?s\<lparr>pc := AtSelect rest,
           written := (written ?s)(productId item := products d' (productId item))\<rparr>) c)"
      if upd: "update_stock_minus t (quantity item) (productId item) (view (store c) ?s) = Inr (u, d')"
      for t u d'
    proof (rule ok_goto [OF inv])
      have "progress p i
          (goto i (?s\<lparr>pc := AtSelect rest,
             written := (written ?s)(productId item := products d' (productId item))\<rparr>) c)
          (past @ [item])"
      proof (cases "productId item = p")
        case False
        with past(2) show ?thesis by (auto simp: progress_def)
      next
        case True
        from mine [OF True] obtain r where l: "lock c p = Some i"
          and r: "products (store c) p = Some r" "asked p past + quantity item \<le> stock_quantity r"
          by blast
        from past(2) r obtain r0 where r0: "products (view (store c) ?s) p = Some r0"
          "stock_quantity r0 = stock_quantity r - asked p past"
          by (auto simp: progress_def view_products asked_absent split: if_splits)
        from upd True r0 have "products d' p =
            Some (r0\<lparr>stock_quantity := stock_quantity r0 - quantity item,
                      in_stock := (0 < stock_quantity r0 - quantity item), updated_at := t\<rparr>)"
          by (auto simp: update_stock_minus_def int4_def split: if_splits)
        with True l r r0 show ?thesis by (simp add: progress_def)
      qed
      with past(1) show "session_ok p i
          (goto i (?s\<lparr>pc := AtSelect rest,
             written := (written ?s)(productId item := products d' (productId item))\<rparr>) c)"
        by (auto simp: session_ok_def)
    qed (use AtUpdate in simp_all)
    from AtUpdate its caught next_item show ?thesis
      by (auto simp: sstep_def Let_def split: sum.splits)
  next
    case (AtInsertItem order k its)
    with self have prog: "progress p i c (items (request ?s))" by (simp add: session_ok_def)
    show ?thesis
    proof (cases its)
      case Nil
      with AtInsertItem caught ok_commit [OF inv AtInsertItem] show ?thesis
        by (simp add: sstep_def Let_def)
    next
      case (Cons item rest)
      have "no_oversell p s
          (goto i (?s\<lparr>pc := AtInsertItem order (Suc k) rest, ins_items := xs\<rparr>) c)" for xs
        by (rule ok_goto [OF inv])
          (use prog AtInsertItem in \<open>auto simp: session_ok_def progress_def\<close>)
      with AtInsertItem Cons caught show ?thesis
        by (simp add: sstep_def Let_def split: sum.splits prod.splits)
    qed
  next
    case (AtRefuse msg)
    with caught ok_finish [OF inv, of "Responded (400, ErrorBody msg)" i] show ?thesis
      by (simp add: sstep_def Let_def)
  next
    case (AtCatch err)
    with ok_finish [OF inv, of "Unhandled StoreFault" i]
      ok_finish [OF inv, of "Forwarded err" i] show ?thesis
      by (simp add: sstep_def Let_def)
  next
    case (Done out)
    with inv show ?thesis by (simp add: sstep_def Let_def)
  qed
qed


lemma sstep_request: "request (sess (sstep f i c) j) = request (sess c j)"
  by (cases "pc (sess c i)")
     (auto simp: sstep_def Let_def goto_def finish_def
        split: list.splits option.splits sum.splits prod.splits)

lemma run_request: "request (sess (run schedule c) j) = request (sess c j)"
  unfolding run_def
  by (induction schedule arbitrary: c) (auto simp: sstep_request)

lemma run_ok: "no_oversell p s c \<Longrightarrow> no_oversell p s (run schedule c)"
  unfolding run_def
  by (induction schedule arbitrary: c) (auto intro: sstep_ok)

text \<open>
  C2. Two requests run at once, under any schedule of their statements and any failures
  of them, against a store in which the product has a stock \<open>s\<close> that is not negative
  (as the data model has it): when the quantities they ask of the product add up to more
  than \<open>s\<close>, at no point of the run have both been answered 201, and the stock of the
  product in the store is never negative.
\<close>

theorem no_oversell_under_row_locks:
  assumes "products d p = Some r" and "0 \<le> stock_quantity r"
    and "stock_quantity r <
           sum_list (map quantity (filter (\<lambda>i. productId i = p) (items req1))) +
           sum_list (map quantity (filter (\<lambda>i. productId i = p) (items req2)))"
  shows "\<not> (placed (pc (sess (run schedule (both d e1 req1 e2 req2)) True)) \<and>
            placed (pc (sess (run schedule (both d e1 req1 e2 req2)) False))) \<and>
         (\<exists>r'. products (store (run schedule (both d e1 req1 e2 req2))) p = Some r' \<and>
               0 \<le> stock_quantity r')"
proof -
  let ?c = "run schedule (both d e1 req1 e2 req2)"
  from both_ok [OF assms(1,2)] have "no_oversell p (stock_quantity r) ?c" by (rule run_ok)
  moreover have "request (sess ?c True) = req1" "request (sess ?c False) = req2"
    by (simp_all add: run_request both_def arrive_def)
  ultimately show ?thesis
    using assms(3) by (auto simp: no_oversell_def asked_def split: if_splits)
qed

lemmas step_defs =
  run_def sstep_def goto_def finish_def release_locks_def view_def both_def arrive_def
  validation_error_def select_for_update_def update_stock_minus_def insert_order_def
  insert_order_item_def order_item_params_def or_null_def int4_def Let_def

text \<open>
  The schedule \<open>rush\<close> on the shop with three pairs, both requests for two: the first is
  placed, the second is refused for insufficient stock, one pair is left.
\<close>

lemma rush_ends:
  "pc (sess (run rush (both shop calm (buy 2 (5997 / 100)) calm (buy 2 (5997 / 100)))) True) =
     Done (Responded (201, OrderPlaced (receipt (5997 / 100)))) \<and>
   pc (sess (run rush (both shop calm (buy 2 (5997 / 100)) calm (buy 2 (5997 / 100)))) False) =
     Done (Responded (400, ErrorBody ''Insufficient stock for \"Sneaker\"'')) \<and>
   map_option stock_quantity
     (products (store (run rush (both shop calm (buy 2 (5997 / 100)) calm (buy 2 (5997 / 100)))))
        ''p1'') = Some 1"
  by (simp add: rush_def step_defs calm_def buy_def shop_def sneaker_def receipt_def
      decimal_10_2_examples)

theorem no_oversell_under_row_locks_witness:
  "\<not> (placed (pc (sess (run rush (both shop calm (buy 2 (5997 / 100)) calm (buy 2 (5997 / 100)))) True)) \<and>
      placed (pc (sess (run rush (both shop calm (buy 2 (5997 / 100)) calm (buy 2 (5997 / 100)))) False))) \<and>
   (\<exists>r'. products (store (run rush (both shop calm (buy 2 (5997 / 100)) calm (buy 2 (5997 / 100)))))
           ''p1'' = Some r' \<and> 0 \<le> stock_quantity r')"
proof -
  have "products shop ''p1'' = Some sneaker" "0 \<le> stock_quantity sneaker"
    "stock_quantity sneaker <
       sum_list (map quantity (filter (\<lambda>i. productId i = ''p1'') (items (buy 2 (5997 / 100))))) +
       sum_list (map quantity (filter (\<lambda>i. productId i = ''p1'') (items (buy 2 (5997 / 100)))))"
    by (simp_all add: buy_def shop_def sneaker_def)
  from no_oversell_under_row_locks [OF this] show ?thesis .
qed

text \<open>
  A session that runs alone ends as the handler run in one piece does: an order that is
  placed, one that is refused, and one whose fourth statement fails.
\<close>

lemma lone_session_agrees:
  "store (run (replicate 7 (True, False))
            (both shop calm (buy 3 (5997 / 100)) calm (buy 3 (5997 / 100)))) =
     committed (snd (post_orders calm (buy 3 (5997 / 100)) shop)) \<and>
   pc (sess (run (replicate 7 (True, False))
            (both shop calm (buy 3 (5997 / 100)) calm (buy 3 (5997 / 100)))) True) =
     Done (fst (post_orders calm (buy 3 (5997 / 100)) shop))"
  by (simp add: run_buy_3 [OF decimal_10_2_examples(3)] numeral_eq_Suc)
     (simp add: step_defs calm_def buy_def shop_def sneaker_def receipt_def
        after_sale_def sold_item_def decimal_10_2_examples)

lemma lone_session_agrees_refused:
  "store (run (replicate 4 (True, False))
            (both shop calm (buy 4 (5997 / 100)) calm (buy 4 (5997 / 100)))) =
     committed (snd (post_orders calm (buy 4 (5997 / 100)) shop)) \<and>
   pc (sess (run (replicate 4 (True, False))
            (both shop calm (buy 4 (5997 / 100)) calm (buy 4 (5997 / 100)))) True) =
     Done (fst (post_orders calm (buy 4 (5997 / 100)) shop))"
  by (simp add: run_buy_4 numeral_eq_Suc)
     (simp add: step_defs calm_def buy_def shop_def sneaker_def)

lemma lone_session_agrees_failed:
  "store (run [(True, False), (True, False), (True, False), (True, False), (True, True),
               (True, False)]
            (both shop calm (buy 3 (5997 / 100)) calm (buy 3 (5997 / 100)))) =
     committed (snd (post_orders flaky (buy 3 (5997 / 100)) shop)) \<and>
   pc (sess (run [(True, False), (True, False), (True, False), (True, False), (True, True),
               (True, False)]
            (both shop calm (buy 3 (5997 / 100)) calm (buy 3 (5997 / 100)))) True) =
     Done (fst (post_orders flaky (buy 3 (5997 / 100)) shop))"
  by (simp add: run_buy_flaky)
     (simp add: step_defs calm_def buy_def shop_def sneaker_def decimal_10_2_examples)

end
